theory Spec2Isabelle
  imports Complex_Main "HOL-Library.Sublist" "HOL-Library.Word"
begin

section \<open>The realtime session manager (ConversationView) as a state machine\<close>

text \<open>
  The component keeps its data in React state cells and in refs that every callback
  shares. The model is one record holding all of them, and each callback of the source is
  a function on that record. A callback that can throw returns either the state it ends
  in, or the thrown value together with the state at the throw (assignments made before a
  throw stay made).

  Conventions of the embedding:
  \<^item> a \<open>useState\<close> updater runs once, at the call of its setter, and the ref
    \<open>latestTranscriptionHistory\<close> (copied from the state cell after every render)
    is read as the state cell \<open>transcriptionHistory\<close>;
  \<^item> times are real numbers of seconds and \<open>Date.now()\<close> is a natural number;
    both are read from the platform and so are arguments of the handler that reads them;
  \<^item> \<open>setTimeout\<close> appends a pending timer; a timer fires as an event of its own;
  \<^item> calls that leave the component (\<open>onEndLesson\<close>, \<open>getUserMedia\<close>,
    \<open>source.start\<close>, the release of a resource) are appended to logs;
  \<^item> a handler runs to its end before the next event is taken, the \<open>await\<close> inside
    \<open>onmessage\<close> included; the two awaits of \<open>startConversation\<close> are events;
  \<^item> a state setter is an assignment to the state cell, also after the unmount, where
    React drops it; what is proved about a run past the unmount is about refs and logs.

  The capture callback (\<open>onaudioprocess\<close>) sends encoded frames and touches none of the
  cells, and the configuration handed to \<open>connect\<close> (the system instruction with its
  recap) is kept nowhere; neither is part of the state.
\<close>

subsection \<open>Data\<close>

datatype speaker = user | gemini

datatype entry_id = UserId nat | GeminiId nat | CurrentUser

record TranscriptionEntry =
  ident :: entry_id
  speaker :: speaker
  entry_text :: string

datatype connection_state = Idle | Connecting | Connected | Reconnecting | ErrorState

text \<open>A value that is thrown or handed to \<open>handleFailure\<close>: an \<open>Error\<close> object
  with its message, or anything else (an event object, \<open>undefined\<close>).\<close>

datatype js_value = Error string | NotAnError

datatype ctx_state = CtxRunning | CtxClosed

text \<open>A graph node and a scheduled source; the flag says whether the platform throws
  when the node is disconnected, or the source stopped.\<close>

datatype audio_node = AudioNode (disconnect_throws: bool)

record AudioBuffer =
  buf_length :: nat
  buf_sampleRate :: nat

definition duration :: "AudioBuffer \<Rightarrow> real" where
  "duration b = real (buf_length b) / real (buf_sampleRate b)"

record source_node =
  src_buffer :: AudioBuffer
  src_when :: real
  stop_throws :: bool

datatype timer =
    StartConversationTimer nat
  | EndLessonTimer nat "TranscriptionEntry list"

datatype released = SessionClosed | TracksStopped | NodeDisconnected | ContextClosed | SourceStopped

record state =
  transcriptionHistory :: "TranscriptionEntry list"
  currentUserTranscript :: string
  currentGeminiTranscript :: string
  connectionState :: connection_state
  connectionError :: "string option"
  sessionPromise :: "unit option"
  mediaStream :: "unit option"
  inputAudioContext :: "ctx_state option"
  scriptProcessor :: "audio_node option"
  mediaStreamSource :: "audio_node option"
  outputAudioContext :: "ctx_state option"
  audioSources :: "source_node list"
  nextStartTime :: real
  reconnectAttempts :: nat
  currentUserTranscriptRef :: string
  currentGeminiTranscriptRef :: string
  startConversationRef :: bool
  timers :: "timer list"
  onEndLesson_calls :: "TranscriptionEntry list list"
  getUserMedia_calls :: nat
  start_calls :: "(real \<times> AudioBuffer) list"
  release_calls :: "released list"

definition MAX_RECONNECT_ATTEMPTS :: nat where
  "MAX_RECONNECT_ATTEMPTS = 3"

definition PARTING_WORDS :: "string list" where
  "PARTING_WORDS = [''goodbye'', ''good bye'', ''see you'', ''lesson is over'']"

text \<open>The component as first rendered: every \<open>useState\<close> and \<open>useRef\<close> at its
  initial value, nothing scheduled, nothing called.\<close>

definition initial :: state where
  "initial = \<lparr>
     transcriptionHistory = [], currentUserTranscript = [], currentGeminiTranscript = [],
     connectionState = Idle, connectionError = None,
     sessionPromise = None, mediaStream = None, inputAudioContext = None,
     scriptProcessor = None, mediaStreamSource = None, outputAudioContext = None,
     audioSources = [], nextStartTime = 0, reconnectAttempts = 0,
     currentUserTranscriptRef = [], currentGeminiTranscriptRef = [],
     startConversationRef = False, timers = [],
     onEndLesson_calls = [], getUserMedia_calls = 0, start_calls = [], release_calls = [] \<rparr>"

subsection \<open>Statements that may throw\<close>

type_synonym stmt = "state \<Rightarrow> (js_value \<times> state) + state"

definition seq :: "stmt \<Rightarrow> stmt \<Rightarrow> stmt" where
  "seq f g s = (case f s of Inl x \<Rightarrow> Inl x | Inr s' \<Rightarrow> g s')"

definition try_catch :: "stmt \<Rightarrow> (js_value \<Rightarrow> stmt) \<Rightarrow> stmt" where
  "try_catch f h s = (case f s of Inl (e, s') \<Rightarrow> h e s' | Inr s' \<Rightarrow> Inr s')"

definition throw :: "js_value \<Rightarrow> stmt" where
  "throw e s = Inl (e, s)"

definition upd :: "(state \<Rightarrow> state) \<Rightarrow> stmt" where
  "upd f s = Inr (f s)"

definition ignore :: "js_value \<Rightarrow> stmt" where
  "ignore e s = Inr s"

definition log_release :: "released \<Rightarrow> state \<Rightarrow> state" where
  "log_release r s = s\<lparr>release_calls := release_calls s @ [r]\<rparr>"

subsection \<open>stopConversation\<close>

definition disconnect :: "audio_node \<Rightarrow> stmt" where
  "disconnect n s =
     (if disconnect_throws n then Inl (Error ''InvalidAccessError'', s)
      else Inr (log_release NodeDisconnected s))"

definition source_stop :: "source_node \<Rightarrow> stmt" where
  "source_stop src s =
     (if stop_throws src then Inl (Error ''InvalidStateError'', s)
      else Inr (log_release SourceStopped s))"

text \<open>Closing the session is asked of the promise (\<open>.then(session => session.close())\<close>,
  failures ignored) and stopping the tracks of a stream does not throw; disconnecting a
  node and stopping a source may, inside \<open>try\<close>.
  \<open>ctx?.state !== 'closed'\<close> holds for a missing context too, and then
  \<open>ctx?.close()\<close> is no call at all; the promise that \<open>close()\<close> returns has its
  rejection swallowed by \<open>.catch\<close>.\<close>

definition close_context :: "ctx_state option \<Rightarrow> ctx_state option \<times> released list" where
  "close_context c =
     (case c of
        None \<Rightarrow> (None, [])
      | Some CtxClosed \<Rightarrow> (Some CtxClosed, [])
      | Some CtxRunning \<Rightarrow> (Some CtxClosed, [ContextClosed]))"

fun stop_sources :: "source_node list \<Rightarrow> stmt" where
  "stop_sources [] = upd (\<lambda>s. s)"
| "stop_sources (src # rest) = seq (try_catch (source_stop src) ignore) (stop_sources rest)"

definition stopConversation :: "bool \<Rightarrow> stmt" where
  "stopConversation isFinalCleanup =
     seq (upd (\<lambda>s. if isFinalCleanup then s\<lparr>connectionState := Idle\<rparr> else s))
    (seq (\<lambda>s. case sessionPromise s of
                 Some p \<Rightarrow> Inr ((log_release SessionClosed s)\<lparr>sessionPromise := None\<rparr>)
               | None \<Rightarrow> Inr s)
    (seq (\<lambda>s. case mediaStream s of
                 Some m \<Rightarrow> Inr ((log_release TracksStopped s)\<lparr>mediaStream := None\<rparr>)
               | None \<Rightarrow> Inr s)
    (seq (\<lambda>s. case mediaStreamSource s of
                 Some n \<Rightarrow> seq (try_catch (disconnect n) ignore)
                               (upd (\<lambda>s. s\<lparr>mediaStreamSource := None\<rparr>)) s
               | None \<Rightarrow> Inr s)
    (seq (\<lambda>s. case scriptProcessor s of
                 Some n \<Rightarrow> seq (try_catch (disconnect n) ignore)
                               (upd (\<lambda>s. s\<lparr>scriptProcessor := None\<rparr>)) s
               | None \<Rightarrow> Inr s)
    (seq (upd (\<lambda>s. s\<lparr>inputAudioContext := fst (close_context (inputAudioContext s)),
                      release_calls := release_calls s @ snd (close_context (inputAudioContext s))\<rparr>))
    (seq (upd (\<lambda>s. s\<lparr>outputAudioContext := fst (close_context (outputAudioContext s)),
                      release_calls := release_calls s @ snd (close_context (outputAudioContext s))\<rparr>))
    (seq (\<lambda>s. stop_sources (audioSources s) s)
    (seq (upd (\<lambda>s. s\<lparr>audioSources := []\<rparr>))
         (upd (\<lambda>s. s\<lparr>nextStartTime := 0\<rparr>))))))))))"

text \<open>What one call of \<open>stopConversation\<close> releases, and the state it leaves: the
  closed form of the sequence above, used to reason about its callers.\<close>

definition stop_releases :: "state \<Rightarrow> released list" where
  "stop_releases s =
     (case sessionPromise s of Some p \<Rightarrow> [SessionClosed] | None \<Rightarrow> [])
   @ (case mediaStream s of Some m \<Rightarrow> [TracksStopped] | None \<Rightarrow> [])
   @ (case mediaStreamSource s of
        Some n \<Rightarrow> (if disconnect_throws n then [] else [NodeDisconnected]) | None \<Rightarrow> [])
   @ (case scriptProcessor s of
        Some n \<Rightarrow> (if disconnect_throws n then [] else [NodeDisconnected]) | None \<Rightarrow> [])
   @ snd (close_context (inputAudioContext s))
   @ snd (close_context (outputAudioContext s))
   @ map (\<lambda>x. SourceStopped) (filter (\<lambda>x. \<not> stop_throws x) (audioSources s))"

definition torn_down :: "bool \<Rightarrow> state \<Rightarrow> state" where
  "torn_down isFinalCleanup s =
     s\<lparr>connectionState := (if isFinalCleanup then Idle else connectionState s),
       sessionPromise := None, mediaStream := None,
       mediaStreamSource := None, scriptProcessor := None,
       inputAudioContext := fst (close_context (inputAudioContext s)),
       outputAudioContext := fst (close_context (outputAudioContext s)),
       audioSources := [], nextStartTime := 0,
       release_calls := release_calls s @ stop_releases s\<rparr>"

subsection \<open>handleEndLesson, handleFailure, startConversation\<close>

definition handleEndLesson :: "TranscriptionEntry list \<Rightarrow> stmt" where
  "handleEndLesson finalHistory =
     upd (\<lambda>s. s\<lparr>onEndLesson_calls := onEndLesson_calls s @ [finalHistory]\<rparr>)"

definition handleFailure :: "js_value \<Rightarrow> stmt" where
  "handleFailure err =
     seq (stopConversation False)
         (\<lambda>s. if reconnectAttempts s < MAX_RECONNECT_ATTEMPTS then
                 (let n = reconnectAttempts s + 1;
                      delay = 2 ^ (n - 1) * 1000
                  in Inr (s\<lparr>reconnectAttempts := n, connectionState := Reconnecting,
                            timers := timers s @ [StartConversationTimer delay]\<rparr>))
               else
                 (let errorMessage =
                        (case err of Error m \<Rightarrow> m
                         | NotAnError \<Rightarrow> ''Connection failed after multiple attempts.'')
                  in Inr (s\<lparr>connectionState := ErrorState,
                            connectionError := Some errorMessage\<rparr>)))"

text \<open>\<open>startConversation\<close> is asynchronous. Its first part runs up to the request for
  the microphone; the second part runs when that request is granted and opens the
  session; a rejection of either await, or a throw in between, lands in the
  \<open>catch\<close>, which is \<open>handleFailure\<close>.\<close>

definition startConversation :: stmt where
  "startConversation =
     seq (stopConversation False)
         (upd (\<lambda>s. s\<lparr>connectionError := None,
                      connectionState := (if reconnectAttempts s > 0 then Reconnecting else Connecting),
                      getUserMedia_calls := getUserMedia_calls s + 1\<rparr>))"

definition startConversation_granted :: stmt where
  "startConversation_granted =
     upd (\<lambda>s. s\<lparr>mediaStream := Some (), outputAudioContext := Some CtxRunning,
                 sessionPromise := Some ()\<rparr>)"

definition startConversation_catch :: "js_value \<Rightarrow> stmt" where
  "startConversation_catch err = handleFailure err"

subsection \<open>The session callbacks\<close>

text \<open>\<open>onopen\<close> marks the connection and resets the attempt counter first; building
  the capture graph from a stream that teardown has already cleared throws.\<close>

definition onopen :: stmt where
  "onopen =
     seq (upd (\<lambda>s. s\<lparr>connectionState := Connected, reconnectAttempts := 0,
                      inputAudioContext := Some CtxRunning\<rparr>))
         (\<lambda>s. case mediaStream s of
                 None \<Rightarrow> throw (Error ''TypeError'') s
               | Some m \<Rightarrow> Inr (s\<lparr>mediaStreamSource := Some (AudioNode False),
                                     scriptProcessor := Some (AudioNode False)\<rparr>))"

text \<open>The audio part of a message: \<open>serverContent?.modelTurn?.parts[0]?.inlineData?.data\<close>
  is missing (or empty), or reading it throws (a model turn without \<open>parts\<close>), or it is a
  text that \<open>decodeAudioData(decode(...), ctx, 24000, 1)\<close> turns into a buffer of so
  many frames, or fails on.\<close>

datatype inline_audio = Absent | AccessThrows | Base64 "nat option"

record LiveServerMessage =
  inputTranscription :: "string option"
  outputTranscription :: "string option"
  turnComplete :: bool
  inlineData :: inline_audio

record platform =
  dateNow_user :: nat
  dateNow_gemini :: nat
  currentTime :: real

definition toLowerCase_char :: "char \<Rightarrow> char" where
  "toLowerCase_char c =
     (case map_of (zip ''ABCDEFGHIJKLMNOPQRSTUVWXYZ'' ''abcdefghijklmnopqrstuvwxyz'') c of
        Some l \<Rightarrow> l
      | None \<Rightarrow> c)"

definition toLowerCase :: "string \<Rightarrow> string" where
  "toLowerCase t = map toLowerCase_char t"

definition includes_str :: "string \<Rightarrow> string \<Rightarrow> bool" where
  "includes_str t w = sublist w t"

definition has_parting_word :: "string \<Rightarrow> bool" where
  "has_parting_word fullOutput = list_ex (\<lambda>word. includes_str (toLowerCase fullOutput) word) PARTING_WORDS"

definition commit_turn :: "platform \<Rightarrow> state \<Rightarrow> state" where
  "commit_turn p s =
     (let fullInput = currentUserTranscriptRef s;
          fullOutput = currentGeminiTranscriptRef s;
          newHistory = transcriptionHistory s
            @ (if fullInput \<noteq> [] then
                 [\<lparr>ident = UserId (dateNow_user p), speaker = user, entry_text = fullInput\<rparr>] else [])
            @ (if fullOutput \<noteq> [] then
                 [\<lparr>ident = GeminiId (dateNow_gemini p), speaker = gemini, entry_text = fullOutput\<rparr>] else [])
      in s\<lparr>transcriptionHistory := newHistory,
           timers := (if has_parting_word fullOutput
                      then timers s @ [EndLessonTimer 2000 newHistory] else timers s),
           currentUserTranscriptRef := [], currentGeminiTranscriptRef := [],
           currentUserTranscript := [], currentGeminiTranscript := []\<rparr>)"

definition schedule_audio :: "platform \<Rightarrow> AudioBuffer \<Rightarrow> state \<Rightarrow> state" where
  "schedule_audio p audioBuffer s =
     (let startTime = max (currentTime p) (nextStartTime s)
      in s\<lparr>start_calls := start_calls s @ [(startTime, audioBuffer)],
           nextStartTime := startTime + duration audioBuffer,
           audioSources := audioSources s
             @ [\<lparr>src_buffer = audioBuffer, src_when = startTime, stop_throws = False\<rparr>]\<rparr>)"

definition apply_inputTranscription :: "LiveServerMessage \<Rightarrow> state \<Rightarrow> state" where
  "apply_inputTranscription message s =
     (case inputTranscription message of
        Some t \<Rightarrow> s\<lparr>currentUserTranscriptRef := t, currentUserTranscript := t\<rparr>
      | None \<Rightarrow> s)"

definition apply_outputTranscription :: "LiveServerMessage \<Rightarrow> state \<Rightarrow> state" where
  "apply_outputTranscription message s =
     (case outputTranscription message of
        Some t \<Rightarrow> s\<lparr>currentGeminiTranscriptRef := t, currentGeminiTranscript := t\<rparr>
      | None \<Rightarrow> s)"

definition apply_turnComplete :: "platform \<Rightarrow> LiveServerMessage \<Rightarrow> state \<Rightarrow> state" where
  "apply_turnComplete p message s = (if turnComplete message then commit_turn p s else s)"

definition play_audio :: "platform \<Rightarrow> LiveServerMessage \<Rightarrow> stmt" where
  "play_audio p message s =
     (case inlineData message of
        Absent \<Rightarrow> Inr s
      | AccessThrows \<Rightarrow> throw (Error ''TypeError'') s
      | Base64 decoded \<Rightarrow>
          (case outputAudioContext s of
             None \<Rightarrow> Inr s
           | Some ctx \<Rightarrow>
               (case decoded of
                  None \<Rightarrow> throw (Error ''decodeAudioData'') s
                | Some frames \<Rightarrow>
                    Inr (schedule_audio p \<lparr>buf_length = frames, buf_sampleRate = 24000\<rparr> s))))"

definition onmessage_body :: "platform \<Rightarrow> LiveServerMessage \<Rightarrow> stmt" where
  "onmessage_body p message =
     seq (upd (apply_inputTranscription message))
    (seq (upd (apply_outputTranscription message))
    (seq (upd (apply_turnComplete p message))
         (play_audio p message)))"

definition onmessage :: "platform \<Rightarrow> LiveServerMessage \<Rightarrow> stmt" where
  "onmessage p message = try_catch (onmessage_body p message) handleFailure"

definition onerror :: "js_value \<Rightarrow> stmt" where
  "onerror e = handleFailure e"

definition onclose :: "bool \<Rightarrow> stmt" where
  "onclose wasClean = (if \<not> wasClean then handleFailure NotAnError else upd (\<lambda>s. s))"

subsection \<open>Mount, unmount, the End Lesson button, timers\<close>

definition mount :: stmt where
  "mount = seq (upd (\<lambda>s. s\<lparr>startConversationRef := True\<rparr>)) startConversation"

definition unmount :: stmt where
  "unmount = stopConversation True"

definition prepareFinalHistoryAndEnd :: stmt where
  "prepareFinalHistoryAndEnd s =
     (let finalHistory = transcriptionHistory s
            @ (if currentUserTranscriptRef s \<noteq> [] then
                 [\<lparr>ident = CurrentUser, speaker = user, entry_text = currentUserTranscriptRef s\<rparr>]
               else [])
      in handleEndLesson finalHistory s)"

definition timer_callback :: "timer \<Rightarrow> stmt" where
  "timer_callback t =
     (case t of
        StartConversationTimer delay \<Rightarrow>
          (\<lambda>s. if startConversationRef s then startConversation s else Inr s)
      | EndLessonTimer delay newHistory \<Rightarrow> handleEndLesson newHistory)"

definition source_onended :: "nat \<Rightarrow> stmt" where
  "source_onended i = upd (\<lambda>s. s\<lparr>audioSources := take i (audioSources s) @ drop (Suc i) (audioSources s)\<rparr>)"

subsection \<open>The event loop\<close>

datatype event =
    Mount
  | Unmount
  | GetUserMediaResolved
  | StartConversationThrew js_value
  | OnOpen
  | OnMessage platform LiveServerMessage
  | OnError js_value
  | OnClose bool
  | TimerFired nat
  | EndLessonClicked
  | SourceEnded nat

definition handler :: "event \<Rightarrow> stmt" where
  "handler ev =
     (case ev of
        Mount \<Rightarrow> mount
      | Unmount \<Rightarrow> unmount
      | GetUserMediaResolved \<Rightarrow> startConversation_granted
      | StartConversationThrew e \<Rightarrow> startConversation_catch e
      | OnOpen \<Rightarrow> onopen
      | OnMessage p m \<Rightarrow> onmessage p m
      | OnError e \<Rightarrow> onerror e
      | OnClose wasClean \<Rightarrow> onclose wasClean
      | TimerFired i \<Rightarrow>
          (\<lambda>s. if i < length (timers s)
                then timer_callback (timers s ! i)
                       (s\<lparr>timers := take i (timers s) @ drop (Suc i) (timers s)\<rparr>)
                else Inr s)
      | EndLessonClicked \<Rightarrow> prepareFinalHistoryAndEnd
      | SourceEnded i \<Rightarrow> source_onended i)"

text \<open>One turn of the event loop: the handler runs; a value it throws is lost to the
  component and the loop goes on from the state at the throw.\<close>

definition step :: "state \<Rightarrow> event \<Rightarrow> state" where
  "step s ev = (case handler ev s of Inl (e, s') \<Rightarrow> s' | Inr s' \<Rightarrow> s')"

definition run :: "state \<Rightarrow> event list \<Rightarrow> state" where
  "run s evs = foldl step s evs"

subsection \<open>Readings of a run\<close>

text \<open>Consecutive \<open>source.start\<close> calls do not overlap when each starts no earlier than
  the one before it ends; \<open>chained c calls\<close> says so for a list of calls that follows a
  cursor \<open>c\<close>, and \<open>cursor_after\<close> is where the cursor then stands.\<close>

fun chained :: "real \<Rightarrow> (real \<times> AudioBuffer) list \<Rightarrow> bool" where
  "chained c [] = True"
| "chained c ((t, b) # rest) = (c \<le> t \<and> chained (t + duration b) rest)"

fun cursor_after :: "real \<Rightarrow> (real \<times> AudioBuffer) list \<Rightarrow> real" where
  "cursor_after c [] = c"
| "cursor_after c ((t, b) # rest) = cursor_after (t + duration b) rest"

text \<open>A partial buffer after a list of transcription fields, each either absent or the
  text that overwrites the buffer.\<close>

definition overwritten :: "string \<Rightarrow> string option list \<Rightarrow> string" where
  "overwritten buffer updates =
     foldl (\<lambda>b u. case u of Some t \<Rightarrow> t | None \<Rightarrow> b) buffer updates"

text \<open>A message whose handling ends in the \<open>catch\<close> of \<open>onmessage\<close>.\<close>

definition message_fails :: "LiveServerMessage \<Rightarrow> state \<Rightarrow> bool" where
  "message_fails message s =
     (case inlineData message of
        Absent \<Rightarrow> False
      | AccessThrows \<Rightarrow> True
      | Base64 decoded \<Rightarrow> outputAudioContext s \<noteq> None \<and> decoded = None)"

text \<open>The events whose handler calls \<open>stopConversation\<close>.\<close>

definition is_StartConversationTimer :: "timer \<Rightarrow> bool" where
  "is_StartConversationTimer t = (case t of StartConversationTimer d \<Rightarrow> True | EndLessonTimer d h \<Rightarrow> False)"

definition tears_down :: "state \<Rightarrow> event \<Rightarrow> bool" where
  "tears_down s ev =
     (case ev of
        Mount \<Rightarrow> True
      | Unmount \<Rightarrow> True
      | GetUserMediaResolved \<Rightarrow> False
      | StartConversationThrew e \<Rightarrow> True
      | OnOpen \<Rightarrow> False
      | OnMessage p m \<Rightarrow> message_fails m s
      | OnError e \<Rightarrow> True
      | OnClose wasClean \<Rightarrow> \<not> wasClean
      | TimerFired i \<Rightarrow>
          i < length (timers s) \<and> is_StartConversationTimer (timers s ! i) \<and> startConversationRef s
      | EndLessonClicked \<Rightarrow> False
      | SourceEnded i \<Rightarrow> False)"

text \<open>The events that reach \<open>handleEndLesson\<close>: the End Lesson button, and an
  end-of-lesson timer that fires.\<close>

definition ends_lesson :: "state \<Rightarrow> event \<Rightarrow> bool" where
  "ends_lesson s ev =
     (case ev of
        EndLessonClicked \<Rightarrow> True
      | TimerFired i \<Rightarrow> i < length (timers s) \<and> \<not> is_StartConversationTimer (timers s ! i)
      | _ \<Rightarrow> False)"

fun lesson_end_triggers :: "state \<Rightarrow> event list \<Rightarrow> nat" where
  "lesson_end_triggers s [] = 0"
| "lesson_end_triggers s (ev # evs) =
     (if ends_lesson s ev then 1 else 0) + lesson_end_triggers (step s ev) evs"

text \<open>The handlers that reach \<open>handleFailure\<close> directly, and the one that reaches
  \<open>connected\<close>.\<close>

datatype connection_event = Failure js_value | ConnectedEvent

definition connection_step :: "state \<Rightarrow> connection_event \<Rightarrow> state" where
  "connection_step s ce = (case ce of Failure e \<Rightarrow> step s (OnError e) | ConnectedEvent \<Rightarrow> step s OnOpen)"

text \<open>The number of failures since the last \<open>connected\<close> (or since the start).\<close>

definition consecutive_failures :: "connection_event list \<Rightarrow> nat" where
  "consecutive_failures ces =
     foldl (\<lambda>n ce. case ce of Failure e \<Rightarrow> n + 1 | ConnectedEvent \<Rightarrow> 0) 0 ces"

section \<open>The feedback provider (generateFeedback)\<close>

text \<open>The generation service is an argument: whether constructing the client throws, and
  what \<open>generateContent\<close> answers to a prompt (a text, or a thrown value). The result
  is what the returned promise settles to (\<open>Inl\<close> a rejection) and the prompts that were
  sent over the network.\<close>

record genai =
  newGoogleGenAI :: "js_value option"
  generateContent :: "string \<Rightarrow> js_value + string"

definition transcript_line :: "TranscriptionEntry \<Rightarrow> string" where
  "transcript_line entry =
     (if speaker entry = user then ''Student'' else ''Tutor'') @ '': '' @ entry_text entry"

fun join :: "string \<Rightarrow> string list \<Rightarrow> string" where
  "join sep [] = []"
| "join sep [x] = x"
| "join sep (x # y # rest) = x @ sep @ join sep (y # rest)"

definition newline :: string where
  "newline = [CHR 0x0A]"

definition feedback_prompt :: "string \<Rightarrow> string" where
  "feedback_prompt transcript = join newline
     [''You are an expert English teacher reviewing a lesson transcript. The lesson was between an AI Tutor (you) and a Student. '',
      ''Based on the following transcript, provide detailed, constructive feedback for the Student.'',
      '''',
      ''Transcript:'',
      ''---'',
      transcript,
      ''---'',
      '''',
      ''Your feedback should be encouraging and focus on these areas:'',
      ''1.  **Grammar and Sentence Structure:** Point out any recurring mistakes and provide correct examples.'',
      ''2.  **Vocabulary Usage:** Comment on the student's word choice. Suggest more appropriate or advanced vocabulary where applicable.'',
      ''3.  **Fluency and Coherence:** Assess how well the student expressed their ideas.'',
      ''4.  **Overall Progress:** Give a summary of what the student did well and suggest one or two key areas to focus on for the next lesson.'',
      '''',
      ''Format your response as clear, easy-to-read text. Use headings for each section. Do not use Markdown formatting.'']"

definition no_conversation_message :: string where
  "no_conversation_message = ''There was no conversation to analyze. Let's try another lesson!''"

definition feedback_fallback :: string where
  "feedback_fallback =
     ''Sorry, I was unable to generate feedback for this session. Please try again next time.''"

definition generateFeedback_try :: "genai \<Rightarrow> TranscriptionEntry list \<Rightarrow> (js_value + string) \<times> string list" where
  "generateFeedback_try ai history =
     (case newGoogleGenAI ai of
        Some e \<Rightarrow> (Inl e, [])
      | None \<Rightarrow>
          (let transcript = join newline (map transcript_line history);
               prompt = feedback_prompt transcript
           in (generateContent ai prompt, [prompt])))"

definition generateFeedback :: "genai \<Rightarrow> TranscriptionEntry list \<Rightarrow> (js_value + string) \<times> string list" where
  "generateFeedback ai history =
     (if length history = 0 then (Inr no_conversation_message, [])
      else
        (case generateFeedback_try ai history of
           (Inl error, sent) \<Rightarrow> (Inr feedback_fallback, sent)
         | (Inr text_of_response, sent) \<Rightarrow> (Inr text_of_response, sent)))"


section \<open>The audio codec utilities (encode, decode)\<close>

text \<open>
  Modelled from the spec: the module \<open>utils/audio\<close>, which defines \<open>encode\<close> and
  \<open>decode\<close>, is not among the sources. The spec describes \<open>encode\<close> as a reversible,
  binary-safe byte-to-text transport encoding and \<open>decode\<close> as its inverse, and the
  session manager names the text it hands to \<open>decode\<close> \<open>base64Audio\<close>; the model is
  Base64 with the standard alphabet and padding, on lists of bytes. \<open>decode\<close> returns
  \<open>None\<close> for a text that is not padded Base64.
\<close>

definition b64_alphabet :: string where
  "b64_alphabet = ''ABCDEFGHIJKLMNOPQRSTUVWXYZabcdefghijklmnopqrstuvwxyz0123456789+/''"

definition b64_char :: "nat \<Rightarrow> char" where
  "b64_char i = b64_alphabet ! i"

fun index_of :: "'a \<Rightarrow> 'a list \<Rightarrow> nat option" where
  "index_of x [] = None"
| "index_of x (y # ys) = (if x = y then Some 0 else map_option Suc (index_of x ys))"

definition b64_index :: "char \<Rightarrow> nat option" where
  "b64_index c = index_of c b64_alphabet"

fun encode :: "8 word list \<Rightarrow> string" where
  "encode [] = []"
| "encode [a] =
     (let n = unat a * 16
      in [b64_char (n div 64), b64_char (n mod 64), CHR ''='', CHR ''=''])"
| "encode [a, b] =
     (let n = (unat a * 256 + unat b) * 4
      in [b64_char (n div 4096), b64_char (n div 64 mod 64), b64_char (n mod 64), CHR ''=''])"
| "encode (a # b # c # rest) =
     (let n = unat a * 65536 + unat b * 256 + unat c
      in [b64_char (n div 262144), b64_char (n div 4096 mod 64), b64_char (n div 64 mod 64),
          b64_char (n mod 64)] @ encode rest)"

fun decode :: "string \<Rightarrow> 8 word list option" where
  "decode [] = Some []"
| "decode (c1 # c2 # c3 # c4 # rest) =
     (if rest = [] \<and> c3 = CHR ''='' \<and> c4 = CHR ''='' then
        (case (b64_index c1, b64_index c2) of
           (Some w, Some x) \<Rightarrow> Some [of_nat ((w * 64 + x) div 16)]
         | _ \<Rightarrow> None)
      else if rest = [] \<and> c4 = CHR ''='' then
        (case (b64_index c1, b64_index c2, b64_index c3) of
           (Some w, Some x, Some y) \<Rightarrow>
             (let n = w * 4096 + x * 64 + y
              in Some [of_nat (n div 1024), of_nat (n div 4 mod 256)])
         | _ \<Rightarrow> None)
      else
        (case (b64_index c1, b64_index c2, b64_index c3, b64_index c4) of
           (Some w, Some x, Some y, Some z) \<Rightarrow>
             (let n = w * 262144 + x * 4096 + y * 64 + z
              in map_option
                   (\<lambda>bytes. of_nat (n div 65536) # of_nat (n div 256 mod 256) # of_nat (n mod 256) # bytes)
                   (decode rest))
         | _ \<Rightarrow> None))"
| "decode _ = None"

section \<open>Teardown\<close>

lemma stop_sources_result:
  "stop_sources xs s =
     Inr (s\<lparr>release_calls := release_calls s
            @ map (\<lambda>x. SourceStopped) (filter (\<lambda>x. \<not> stop_throws x) xs)\<rparr>)"
proof (induction xs arbitrary: s)
  case Nil
  show ?case by (simp add: upd_def)
next
  case (Cons x xs)
  show ?case
    by (simp add: seq_def try_catch_def source_stop_def ignore_def log_release_def Cons.IH)
qed

lemma stopConversation_result: "stopConversation b s = Inr (torn_down b s)"
  by (simp add: stopConversation_def seq_def upd_def try_catch_def disconnect_def ignore_def
      log_release_def stop_sources_result stop_releases_def torn_down_def split: option.splits)

lemma torn_down_fields:
  "transcriptionHistory (torn_down b s) = transcriptionHistory s"
  "currentUserTranscript (torn_down b s) = currentUserTranscript s"
  "currentGeminiTranscript (torn_down b s) = currentGeminiTranscript s"
  "connectionState (torn_down b s) = (if b then Idle else connectionState s)"
  "connectionError (torn_down b s) = connectionError s"
  "sessionPromise (torn_down b s) = None"
  "mediaStream (torn_down b s) = None"
  "inputAudioContext (torn_down b s) = fst (close_context (inputAudioContext s))"
  "scriptProcessor (torn_down b s) = None"
  "mediaStreamSource (torn_down b s) = None"
  "outputAudioContext (torn_down b s) = fst (close_context (outputAudioContext s))"
  "audioSources (torn_down b s) = []"
  "nextStartTime (torn_down b s) = 0"
  "reconnectAttempts (torn_down b s) = reconnectAttempts s"
  "currentUserTranscriptRef (torn_down b s) = currentUserTranscriptRef s"
  "currentGeminiTranscriptRef (torn_down b s) = currentGeminiTranscriptRef s"
  "startConversationRef (torn_down b s) = startConversationRef s"
  "timers (torn_down b s) = timers s"
  "onEndLesson_calls (torn_down b s) = onEndLesson_calls s"
  "getUserMedia_calls (torn_down b s) = getUserMedia_calls s"
  "start_calls (torn_down b s) = start_calls s"
  "release_calls (torn_down b s) = release_calls s @ stop_releases s"
  by (simp_all add: torn_down_def)

lemma close_context_twice:
  "fst (close_context (fst (close_context c))) = fst (close_context c)"
  "snd (close_context (fst (close_context c))) = []"
  "fst (close_context c) \<noteq> Some CtxRunning"
  by (simp_all add: close_context_def split: option.splits ctx_state.splits)

lemma stop_releases_torn_down: "stop_releases (torn_down b s) = []"
  by (simp add: stop_releases_def torn_down_fields close_context_twice)

lemma torn_down_twice: "torn_down b (torn_down b s) = torn_down b s"
  by (simp add: torn_down_def stop_releases_torn_down[unfolded torn_down_def]
      close_context_twice stop_releases_def)

lemma torn_down_initial: "torn_down b initial = initial"
  by (simp add: torn_down_def initial_def stop_releases_def close_context_def)

lemma initial_fields:
  "transcriptionHistory initial = []"
  "currentUserTranscript initial = []"
  "currentGeminiTranscript initial = []"
  "connectionState initial = Idle"
  "connectionError initial = None"
  "sessionPromise initial = None"
  "mediaStream initial = None"
  "inputAudioContext initial = None"
  "scriptProcessor initial = None"
  "mediaStreamSource initial = None"
  "outputAudioContext initial = None"
  "audioSources initial = []"
  "nextStartTime initial = 0"
  "reconnectAttempts initial = 0"
  "currentUserTranscriptRef initial = []"
  "currentGeminiTranscriptRef initial = []"
  "startConversationRef initial = False"
  "timers initial = []"
  "onEndLesson_calls initial = []"
  "getUserMedia_calls initial = 0"
  "start_calls initial = []"
  "release_calls initial = []"
  by (simp_all add: initial_def)

text \<open>
  Claim C7. \<open>stopConversation\<close> never raises, whatever the state it is called in and
  whichever of the nodes and sources throw when released: it returns a state in which the
  session handle, the capture stream and both capture graph nodes are null, no audio
  context is left running, no playback source is tracked, and the playback cursor is
  zero, having released what \<open>stop_releases\<close> lists. Calling it again in that state does
  not raise either and changes nothing; with nothing ever acquired (the initial state) it
  returns the state unchanged.
\<close>

theorem stopConversation_total_idempotent:
  "\<exists>s'. stopConversation isFinalCleanup s = Inr s'
      \<and> sessionPromise s' = None \<and> mediaStream s' = None
      \<and> mediaStreamSource s' = None \<and> scriptProcessor s' = None
      \<and> inputAudioContext s' \<noteq> Some CtxRunning \<and> outputAudioContext s' \<noteq> Some CtxRunning
      \<and> audioSources s' = [] \<and> nextStartTime s' = 0
      \<and> release_calls s' = release_calls s @ stop_releases s
      \<and> stopConversation isFinalCleanup s' = Inr s'
      \<and> (\<exists>s''. stopConversation again s' = Inr s'')
      \<and> stopConversation isFinalCleanup initial = Inr initial"
  by (simp add: stopConversation_result torn_down_fields close_context_twice torn_down_twice
      torn_down_initial)

section \<open>Closed forms of the handlers\<close>

lemma handleFailure_result:
  "handleFailure err s =
     Inr (if reconnectAttempts s < 3 then
            (torn_down False s)\<lparr>reconnectAttempts := reconnectAttempts s + 1,
               connectionState := Reconnecting,
               timers := timers s @ [StartConversationTimer (2 ^ reconnectAttempts s * 1000)]\<rparr>
          else
            (torn_down False s)\<lparr>connectionState := ErrorState,
               connectionError := Some (case err of Error m \<Rightarrow> m
                  | NotAnError \<Rightarrow> ''Connection failed after multiple attempts.'')\<rparr>)"
  by (simp add: handleFailure_def seq_def stopConversation_result torn_down_fields
      MAX_RECONNECT_ATTEMPTS_def Let_def)

lemma startConversation_result:
  "startConversation s =
     Inr ((torn_down False s)\<lparr>connectionError := None,
            connectionState := (if reconnectAttempts s > 0 then Reconnecting else Connecting),
            getUserMedia_calls := getUserMedia_calls s + 1\<rparr>)"
  by (simp add: startConversation_def seq_def upd_def stopConversation_result torn_down_fields)

lemma step_OnMessage:
  "step s (OnMessage p m) =
     (let s3 = apply_turnComplete p m (apply_outputTranscription m (apply_inputTranscription m s))
      in case play_audio p m s3 of
           Inr s' \<Rightarrow> s'
         | Inl (e, s') \<Rightarrow> (case handleFailure e s' of Inr s'' \<Rightarrow> s'' | Inl (e', s'') \<Rightarrow> s''))"
  by (simp add: step_def handler_def onmessage_def onmessage_body_def seq_def upd_def try_catch_def
      split: sum.splits prod.splits)

lemma onmessage_transcript:
  "transcriptionHistory (step s (OnMessage p m)) =
     transcriptionHistory (apply_turnComplete p m (apply_outputTranscription m (apply_inputTranscription m s)))"
  "currentUserTranscriptRef (step s (OnMessage p m)) =
     currentUserTranscriptRef (apply_turnComplete p m (apply_outputTranscription m (apply_inputTranscription m s)))"
  "currentGeminiTranscriptRef (step s (OnMessage p m)) =
     currentGeminiTranscriptRef (apply_turnComplete p m (apply_outputTranscription m (apply_inputTranscription m s)))"
  by (simp_all add: step_OnMessage play_audio_def throw_def handleFailure_result torn_down_fields
      schedule_audio_def Let_def split: inline_audio.splits option.splits)

lemma step_simps:
  "step s Mount = (torn_down False (s\<lparr>startConversationRef := True\<rparr>))\<lparr>connectionError := None,
            connectionState := (if reconnectAttempts s > 0 then Reconnecting else Connecting),
            getUserMedia_calls := getUserMedia_calls s + 1\<rparr>"
  "step s Unmount = torn_down True s"
  "step s GetUserMediaResolved = s\<lparr>mediaStream := Some (), outputAudioContext := Some CtxRunning,
                 sessionPromise := Some ()\<rparr>"
  "step s (StartConversationThrew e) = (case handleFailure e s of Inr s' \<Rightarrow> s' | Inl (e', s') \<Rightarrow> s')"
  "step s (OnError e) = (case handleFailure e s of Inr s' \<Rightarrow> s' | Inl (e', s') \<Rightarrow> s')"
  "step s (OnClose wasClean) = (if wasClean then s else (case handleFailure NotAnError s of Inr s' \<Rightarrow> s' | Inl (e', s') \<Rightarrow> s'))"
  "step s EndLessonClicked =
     s\<lparr>onEndLesson_calls := onEndLesson_calls s @
        [transcriptionHistory s @ (if currentUserTranscriptRef s \<noteq> [] then
                 [\<lparr>ident = CurrentUser, speaker = user, entry_text = currentUserTranscriptRef s\<rparr>]
               else [])]\<rparr>"
  "step s (SourceEnded i) = s\<lparr>audioSources := take i (audioSources s) @ drop (Suc i) (audioSources s)\<rparr>"
  by (simp_all add: step_def handler_def mount_def unmount_def seq_def upd_def
      startConversation_result stopConversation_result torn_down_fields
      startConversation_granted_def startConversation_catch_def onerror_def onclose_def
      prepareFinalHistoryAndEnd_def handleEndLesson_def source_onended_def Let_def)

lemma step_OnOpen:
  "step s OnOpen =
     (case mediaStream s of
        None \<Rightarrow> s\<lparr>connectionState := Connected, reconnectAttempts := 0,
                      inputAudioContext := Some CtxRunning\<rparr>
      | Some m \<Rightarrow> s\<lparr>connectionState := Connected, reconnectAttempts := 0,
                      inputAudioContext := Some CtxRunning,
                      mediaStreamSource := Some (AudioNode False),
                      scriptProcessor := Some (AudioNode False)\<rparr>)"
  by (simp add: step_def handler_def onopen_def seq_def upd_def throw_def split: option.splits)

lemma step_TimerFired:
  "step s (TimerFired i) =
     (if i < length (timers s) then
        (let s1 = s\<lparr>timers := take i (timers s) @ drop (Suc i) (timers s)\<rparr> in
         case timers s ! i of
           StartConversationTimer d \<Rightarrow>
             (if startConversationRef s then
                (torn_down False s1)\<lparr>connectionError := None,
                   connectionState := (if reconnectAttempts s > 0 then Reconnecting else Connecting),
                   getUserMedia_calls := getUserMedia_calls s + 1\<rparr>
              else s1)
         | EndLessonTimer d h \<Rightarrow> s1\<lparr>onEndLesson_calls := onEndLesson_calls s @ [h]\<rparr>)
      else s)"
  by (simp add: step_def handler_def timer_callback_def startConversation_result
      handleEndLesson_def upd_def Let_def split: timer.splits)


section \<open>Turn commit\<close>

lemma partial_update_transcript:
  assumes "\<not> turnComplete m"
  shows "transcriptionHistory (step s (OnMessage p m)) = transcriptionHistory s"
    and "currentUserTranscriptRef (step s (OnMessage p m)) =
           (case inputTranscription m of Some t \<Rightarrow> t | None \<Rightarrow> currentUserTranscriptRef s)"
    and "currentGeminiTranscriptRef (step s (OnMessage p m)) =
           (case outputTranscription m of Some t \<Rightarrow> t | None \<Rightarrow> currentGeminiTranscriptRef s)"
  using assms
  by (simp_all add: onmessage_transcript apply_turnComplete_def apply_outputTranscription_def
      apply_inputTranscription_def split: option.splits)

lemma partial_updates_run:
  assumes "\<forall>(p, m) \<in> set updates. \<not> turnComplete m"
  shows "transcriptionHistory (run s (map (\<lambda>(p, m). OnMessage p m) updates)) = transcriptionHistory s
       \<and> currentUserTranscriptRef (run s (map (\<lambda>(p, m). OnMessage p m) updates)) =
           overwritten (currentUserTranscriptRef s) (map (\<lambda>(p, m). inputTranscription m) updates)
       \<and> currentGeminiTranscriptRef (run s (map (\<lambda>(p, m). OnMessage p m) updates)) =
           overwritten (currentGeminiTranscriptRef s) (map (\<lambda>(p, m). outputTranscription m) updates)"
  using assms
proof (induction updates arbitrary: s)
  case Nil
  show ?case by (simp add: run_def overwritten_def)
next
  case (Cons u updates)
  obtain p m where u: "u = (p, m)" by (cases u)
  from Cons.prems u have m: "\<not> turnComplete m" and rest: "\<forall>(p, m) \<in> set updates. \<not> turnComplete m"
    by auto
  have "run s (map (\<lambda>(p, m). OnMessage p m) (u # updates)) =
          run (step s (OnMessage p m)) (map (\<lambda>(p, m). OnMessage p m) updates)"
    by (simp add: run_def u)
  then show ?case
    using Cons.IH[OF rest, of "step s (OnMessage p m)"] partial_update_transcript[OF m, of s p]
    by (simp add: u overwritten_def)
qed

lemma turn_complete_transcript:
  assumes "turnComplete m"
  shows "transcriptionHistory (step s (OnMessage p m)) =
           transcriptionHistory s
           @ (if overwritten (currentUserTranscriptRef s) [inputTranscription m] \<noteq> [] then
                [\<lparr>ident = UserId (dateNow_user p), speaker = user,
                  entry_text = overwritten (currentUserTranscriptRef s) [inputTranscription m]\<rparr>]
              else [])
           @ (if overwritten (currentGeminiTranscriptRef s) [outputTranscription m] \<noteq> [] then
                [\<lparr>ident = GeminiId (dateNow_gemini p), speaker = gemini,
                  entry_text = overwritten (currentGeminiTranscriptRef s) [outputTranscription m]\<rparr>]
              else [])"
    and "currentUserTranscriptRef (step s (OnMessage p m)) = []"
    and "currentGeminiTranscriptRef (step s (OnMessage p m)) = []"
  using assms
  by (simp_all add: onmessage_transcript apply_turnComplete_def apply_outputTranscription_def
      apply_inputTranscription_def commit_turn_def overwritten_def Let_def split: option.splits)

text \<open>
  Claim C1. Take any state, any list of inbound messages without the turn-complete signal
  (each may overwrite the student buffer, the tutor buffer, both or neither, and may carry
  audio or fail to process), and then a message with the turn-complete signal. The
  updates leave the transcript log as it was. Handling the turn-complete message appends
  to the log one student entry exactly when the student buffer (as last overwritten, the
  final message's own fields included) is non-empty, then one tutor entry exactly when
  the tutor buffer is non-empty, and nothing else; both buffers are empty afterwards.
\<close>

theorem turn_commit:
  assumes "\<forall>(p, m) \<in> set updates. \<not> turnComplete m" and "turnComplete message"
  shows "let fullInput = overwritten (currentUserTranscriptRef s)
                           (map (\<lambda>(p, m). inputTranscription m) (updates @ [(p, message)]));
             fullOutput = overwritten (currentGeminiTranscriptRef s)
                           (map (\<lambda>(p, m). outputTranscription m) (updates @ [(p, message)]));
             s0 = run s (map (\<lambda>(p, m). OnMessage p m) updates);
             s' = step s0 (OnMessage p message)
         in transcriptionHistory s0 = transcriptionHistory s
          \<and> transcriptionHistory s' =
              transcriptionHistory s
              @ (if fullInput \<noteq> [] then
                   [\<lparr>ident = UserId (dateNow_user p), speaker = user, entry_text = fullInput\<rparr>]
                 else [])
              @ (if fullOutput \<noteq> [] then
                   [\<lparr>ident = GeminiId (dateNow_gemini p), speaker = gemini, entry_text = fullOutput\<rparr>]
                 else [])
          \<and> currentUserTranscriptRef s' = [] \<and> currentGeminiTranscriptRef s' = []"
proof -
  let ?s0 = "run s (map (\<lambda>(p, m). OnMessage p m) updates)"
  note a = partial_updates_run[OF assms(1), of s]
  note b = turn_complete_transcript[OF assms(2), of ?s0 p]
  show ?thesis
    unfolding Let_def using a b by (simp add: overwritten_def)
qed

theorem turn_commit_witness:
  "transcriptionHistory
     (step (run initial
              (map (\<lambda>(p, m). OnMessage p m)
                 [(\<lparr>dateNow_user = 10, dateNow_gemini = 10, currentTime = 0\<rparr>,
                   \<lparr>inputTranscription = Some ''Hel'', outputTranscription = None,
                     turnComplete = False, inlineData = Absent\<rparr>),
                  (\<lparr>dateNow_user = 20, dateNow_gemini = 20, currentTime = 0\<rparr>,
                   \<lparr>inputTranscription = Some ''Hello'', outputTranscription = Some ''Hi'',
                     turnComplete = False, inlineData = Absent\<rparr>)]))
        (OnMessage \<lparr>dateNow_user = 30, dateNow_gemini = 31, currentTime = 0\<rparr>
           \<lparr>inputTranscription = None, outputTranscription = Some ''Hi there'',
             turnComplete = True, inlineData = Absent\<rparr>))
   = [\<lparr>ident = UserId 30, speaker = user, entry_text = ''Hello''\<rparr>,
      \<lparr>ident = GeminiId 31, speaker = gemini, entry_text = ''Hi there''\<rparr>]"
  using turn_commit[of
      "[(\<lparr>dateNow_user = 10, dateNow_gemini = 10, currentTime = 0\<rparr>,
         \<lparr>inputTranscription = Some ''Hel'', outputTranscription = None,
           turnComplete = False, inlineData = Absent\<rparr>),
        (\<lparr>dateNow_user = 20, dateNow_gemini = 20, currentTime = 0\<rparr>,
         \<lparr>inputTranscription = Some ''Hello'', outputTranscription = Some ''Hi'',
           turnComplete = False, inlineData = Absent\<rparr>)]"
      "\<lparr>inputTranscription = None, outputTranscription = Some ''Hi there'',
         turnComplete = True, inlineData = Absent\<rparr>"
      initial
      "\<lparr>dateNow_user = 30, dateNow_gemini = 31, currentTime = 0\<rparr>"]
  by (simp add: overwritten_def initial_fields Let_def)

section \<open>The reconnect attempt counter\<close>

lemma handleFailure_counter:
  "reconnectAttempts (step s (OnError e)) =
     (if reconnectAttempts s < 3 then reconnectAttempts s + 1 else reconnectAttempts s)"
  "connectionState (step s (OnError e)) =
     (if reconnectAttempts s < 3 then Reconnecting else ErrorState)"
  "timers (step s (OnError e)) =
     (if reconnectAttempts s < 3
      then timers s @ [StartConversationTimer (2 ^ reconnectAttempts s * 1000)] else timers s)"
  by (simp_all add: step_simps handleFailure_result torn_down_fields)

lemma step_reconnectAttempts:
  "reconnectAttempts (step s ev) =
     (if ev = OnOpen then 0
      else if (tears_down s ev \<and> ev \<noteq> Mount \<and> ev \<noteq> Unmount \<and> (\<forall>i. ev \<noteq> TimerFired i))
              \<and> reconnectAttempts s < 3
      then reconnectAttempts s + 1 else reconnectAttempts s)"
proof (cases ev)
  case (OnMessage p m)
  then show ?thesis
    by (simp add: step_OnMessage tears_down_def message_fails_def play_audio_def throw_def
        handleFailure_result torn_down_fields schedule_audio_def apply_turnComplete_def
        apply_outputTranscription_def apply_inputTranscription_def commit_turn_def Let_def
        split: inline_audio.splits option.splits)
next
  case (TimerFired i)
  then show ?thesis
    by (simp add: step_TimerFired torn_down_fields Let_def split: timer.splits)
qed (simp_all add: step_simps step_OnOpen handleFailure_result torn_down_fields tears_down_def
    split: option.splits)

lemma connection_run:
  "reconnectAttempts (foldl connection_step initial ces) = min (consecutive_failures ces) 3
   \<and> (0 < consecutive_failures ces \<longrightarrow>
        connectionState (foldl connection_step initial ces) =
          (if consecutive_failures ces \<le> 3 then Reconnecting else ErrorState))"
proof (induction ces rule: rev_induct)
  case Nil
  show ?case by (simp add: consecutive_failures_def initial_fields)
next
  case (snoc ce ces)
  show ?case
  proof (cases ce)
    case (Failure e)
    then show ?thesis
      using snoc.IH
      by (auto simp add: connection_step_def handleFailure_counter consecutive_failures_def)
  next
    case ConnectedEvent
    then show ?thesis
      by (simp add: connection_step_def step_OnOpen consecutive_failures_def split: option.splits)
  qed
qed


text \<open>
  Claim C2, as the code has it. The attempt counter starts at 0. A failure while the
  counter is below \<open>MAX_RECONNECT_ATTEMPTS\<close> adds exactly 1 to it, moves to
  \<open>reconnecting\<close> and schedules one reconnect after \<open>2^(attempts-1)\<close> seconds; a
  failure while the counter is at the maximum leaves it there, moves to the terminal
  error state and schedules nothing. \<open>onopen\<close> sets the counter to 0 and the state to
  \<open>connected\<close>, and no other event lowers the counter. So after any sequence of failure
  and connected events the counter is the number of failures since the last
  \<open>connected\<close>, capped at the maximum, and the state is terminal error exactly when
  more than that many failures came in a row: after three failures in a row the state is
  \<open>reconnecting\<close>, the counter reads 3 and three reconnects have been scheduled; the
  fourth failure gives terminal error, the counter still 3, and no fourth reconnect.
\<close>

theorem reconnect_counter:
  "reconnectAttempts initial = 0
   \<and> reconnectAttempts (connection_step s (Failure e)) =
        (if reconnectAttempts s < MAX_RECONNECT_ATTEMPTS then reconnectAttempts s + 1
         else reconnectAttempts s)
   \<and> connectionState (connection_step s (Failure e)) =
        (if reconnectAttempts s < MAX_RECONNECT_ATTEMPTS then Reconnecting else ErrorState)
   \<and> timers (connection_step s (Failure e)) =
        (if reconnectAttempts s < MAX_RECONNECT_ATTEMPTS
         then timers s @ [StartConversationTimer (2 ^ reconnectAttempts s * 1000)]
         else timers s)
   \<and> reconnectAttempts (connection_step s ConnectedEvent) = 0
   \<and> connectionState (connection_step s ConnectedEvent) = Connected
   \<and> (ev \<noteq> OnOpen \<longrightarrow> reconnectAttempts s \<le> reconnectAttempts (step s ev))
   \<and> reconnectAttempts (foldl connection_step initial ces) =
        min (consecutive_failures ces) MAX_RECONNECT_ATTEMPTS
   \<and> (0 < consecutive_failures ces \<longrightarrow>
        connectionState (foldl connection_step initial ces) =
          (if consecutive_failures ces \<le> MAX_RECONNECT_ATTEMPTS then Reconnecting
           else ErrorState))
   \<and> (let s3 = foldl connection_step initial [Failure e1, Failure e2, Failure e3];
           s4 = connection_step s3 (Failure e4)
       in connectionState s3 = Reconnecting \<and> reconnectAttempts s3 = 3
        \<and> timers s3 = [StartConversationTimer 1000, StartConversationTimer 2000,
                        StartConversationTimer 4000]
        \<and> connectionState s4 = ErrorState \<and> reconnectAttempts s4 = 3
        \<and> timers s4 = timers s3)"
proof -
  have a: "ev \<noteq> OnOpen \<longrightarrow> reconnectAttempts s \<le> reconnectAttempts (step s ev)"
    by (simp add: step_reconnectAttempts)
  have b: "reconnectAttempts (connection_step s ConnectedEvent) = 0
         \<and> connectionState (connection_step s ConnectedEvent) = Connected"
    by (simp add: connection_step_def step_OnOpen split: option.splits)
  have c: "let s3 = foldl connection_step initial [Failure e1, Failure e2, Failure e3];
               s4 = connection_step s3 (Failure e4)
           in connectionState s3 = Reconnecting \<and> reconnectAttempts s3 = 3
            \<and> timers s3 = [StartConversationTimer 1000, StartConversationTimer 2000,
                            StartConversationTimer 4000]
            \<and> connectionState s4 = ErrorState \<and> reconnectAttempts s4 = 3
            \<and> timers s4 = timers s3"
    by (simp add: connection_step_def handleFailure_counter initial_fields Let_def)
  show ?thesis
    using a b c connection_run[of ces]
    by (simp add: connection_step_def handleFailure_counter initial_fields
        MAX_RECONNECT_ATTEMPTS_def)
qed

theorem reconnect_counter_witness:
  "reconnectAttempts initial \<le> reconnectAttempts (step initial (OnError NotAnError))
   \<and> connectionState (foldl connection_step initial
        [Failure NotAnError, Failure NotAnError, Failure NotAnError, Failure NotAnError]) = ErrorState"
  using reconnect_counter[of initial NotAnError "OnError NotAnError"
      "[Failure NotAnError, Failure NotAnError, Failure NotAnError, Failure NotAnError]"]
  by (simp add: consecutive_failures_def MAX_RECONNECT_ATTEMPTS_def)

text \<open>
  Three failures in a row, as the component meets them (the microphone request is refused
  at the mount and after each of the first two backoff timers): the state is
  \<open>reconnecting\<close>, not terminal error, and the third reconnect is pending.
\<close>

theorem three_failures_counterexample:
  "connectionState (run initial [Mount, StartConversationThrew NotAnError, TimerFired 0,
       StartConversationThrew NotAnError, TimerFired 0, StartConversationThrew NotAnError])
     = Reconnecting
   \<and> reconnectAttempts (run initial [Mount, StartConversationThrew NotAnError, TimerFired 0,
       StartConversationThrew NotAnError, TimerFired 0, StartConversationThrew NotAnError]) = 3
   \<and> timers (run initial [Mount, StartConversationThrew NotAnError, TimerFired 0,
       StartConversationThrew NotAnError, TimerFired 0, StartConversationThrew NotAnError])
     = [StartConversationTimer 4000]"
  by (simp add: run_def step_simps step_TimerFired handleFailure_result torn_down_fields
      initial_fields Let_def)


section \<open>Playback scheduling\<close>

lemma duration_nonneg: "0 \<le> duration b"
  by (simp add: duration_def)

lemma cursor_advances: "c \<le> max t c + duration b"
proof -
  have "c \<le> max t c" by simp
  also have "\<dots> \<le> max t c + duration b" using duration_nonneg[of b] by simp
  finally show ?thesis .
qed

lemma transcripts_frame:
  "outputAudioContext (apply_turnComplete p m (apply_outputTranscription m (apply_inputTranscription m s))) = outputAudioContext s"
  "nextStartTime (apply_turnComplete p m (apply_outputTranscription m (apply_inputTranscription m s))) = nextStartTime s"
  "start_calls (apply_turnComplete p m (apply_outputTranscription m (apply_inputTranscription m s))) = start_calls s"
  "reconnectAttempts (apply_turnComplete p m (apply_outputTranscription m (apply_inputTranscription m s))) = reconnectAttempts s"
  "onEndLesson_calls (apply_turnComplete p m (apply_outputTranscription m (apply_inputTranscription m s))) = onEndLesson_calls s"
  "getUserMedia_calls (apply_turnComplete p m (apply_outputTranscription m (apply_inputTranscription m s))) = getUserMedia_calls s"
  "startConversationRef (apply_turnComplete p m (apply_outputTranscription m (apply_inputTranscription m s))) = startConversationRef s"
  by (simp_all add: apply_turnComplete_def apply_outputTranscription_def
      apply_inputTranscription_def commit_turn_def Let_def split: option.splits)

lemma onmessage_audio:
  "start_calls (step s (OnMessage p m)) =
     start_calls s @
       (case inlineData m of
          Base64 (Some frames) \<Rightarrow>
            (if outputAudioContext s = None then []
             else [(max (currentTime p) (nextStartTime s),
                    \<lparr>buf_length = frames, buf_sampleRate = 24000\<rparr>)])
        | _ \<Rightarrow> [])"
  "nextStartTime (step s (OnMessage p m)) =
     (if message_fails m s then 0
      else case inlineData m of
          Base64 (Some frames) \<Rightarrow>
            (if outputAudioContext s = None then nextStartTime s
             else max (currentTime p) (nextStartTime s)
                  + duration \<lparr>buf_length = frames, buf_sampleRate = 24000\<rparr>)
        | _ \<Rightarrow> nextStartTime s)"
  by (auto simp add: step_OnMessage message_fails_def play_audio_def throw_def
      handleFailure_result torn_down_fields schedule_audio_def transcripts_frame Let_def
      split: inline_audio.splits option.splits)

lemma step_nextStartTime:
  "nextStartTime (step s ev) =
     (if tears_down s ev then 0
      else case ev of
          OnMessage p m \<Rightarrow>
            (case inlineData m of
               Base64 (Some frames) \<Rightarrow>
                 (if outputAudioContext s = None then nextStartTime s
                  else max (currentTime p) (nextStartTime s)
                       + duration \<lparr>buf_length = frames, buf_sampleRate = 24000\<rparr>)
             | _ \<Rightarrow> nextStartTime s)
        | _ \<Rightarrow> nextStartTime s)"
proof (cases ev)
  case (OnMessage p m)
  then show ?thesis by (simp add: onmessage_audio tears_down_def)
next
  case (TimerFired i)
  then show ?thesis
    by (simp add: step_TimerFired torn_down_fields tears_down_def is_StartConversationTimer_def
        Let_def split: timer.splits)
qed (simp_all add: step_simps step_OnOpen handleFailure_result torn_down_fields tears_down_def
    split: option.splits)

text \<open>
  Claim C4, as the code has it. An event whose handler does not call
  \<open>stopConversation\<close> leaves the playback cursor greater than or equal to its value
  before: scheduling an audio buffer moves it forward, every other such handler leaves it
  alone. An event whose handler tears the session down (unmount, a connect or reconnect,
  a failure) leaves the cursor at zero.
\<close>

theorem cursor_monotone_until_teardown:
  "(\<not> tears_down s ev \<longrightarrow> nextStartTime s \<le> nextStartTime (step s ev))
   \<and> (tears_down s ev \<longrightarrow> nextStartTime (step s ev) = 0)"
  by (simp add: step_nextStartTime cursor_advances
      split: event.splits inline_audio.splits option.splits)

text \<open>
  The cursor after one second of audio has been scheduled is 1; the unmount cleanup puts
  it back to 0.
\<close>

theorem cursor_reset_counterexample:
  "nextStartTime (run initial [Mount, GetUserMediaResolved, OnOpen,
      OnMessage \<lparr>dateNow_user = 0, dateNow_gemini = 0, currentTime = 0\<rparr>
        \<lparr>inputTranscription = None, outputTranscription = None, turnComplete = False,
          inlineData = Base64 (Some 24000)\<rparr>]) = 1
   \<and> nextStartTime (run initial [Mount, GetUserMediaResolved, OnOpen,
      OnMessage \<lparr>dateNow_user = 0, dateNow_gemini = 0, currentTime = 0\<rparr>
        \<lparr>inputTranscription = None, outputTranscription = None, turnComplete = False,
          inlineData = Base64 (Some 24000)\<rparr>,
      Unmount]) = 0"
  by (simp add: run_def step_simps step_OnOpen onmessage_audio torn_down_fields initial_fields
      message_fails_def duration_def)

theorem cursor_monotone_until_teardown_witness:
  "nextStartTime initial \<le> nextStartTime (step initial EndLessonClicked)
   \<and> nextStartTime (step initial Unmount) = 0"
  using cursor_monotone_until_teardown[of initial EndLessonClicked]
    cursor_monotone_until_teardown[of initial Unmount]
  by (simp add: tears_down_def)

lemma onmessage_outputAudioContext:
  "outputAudioContext (step s (OnMessage p m)) =
     (if message_fails m s then fst (close_context (outputAudioContext s))
      else outputAudioContext s)"
  by (auto simp add: step_OnMessage message_fails_def play_audio_def throw_def
      handleFailure_result torn_down_fields schedule_audio_def transcripts_frame Let_def
      split: inline_audio.splits option.splits)

lemma chained_append:
  "chained c (xs @ ys) = (chained c xs \<and> chained (cursor_after c xs) ys)"
  "cursor_after c (xs @ ys) = cursor_after (cursor_after c xs) ys"
  by (induction c xs rule: chained.induct) simp_all

lemma chained_adjacent:
  "chained c xs \<Longrightarrow> Suc i < length xs \<Longrightarrow>
     fst (xs ! i) + duration (snd (xs ! i)) \<le> fst (xs ! Suc i)"
proof (induction c xs arbitrary: i rule: chained.induct)
  case (1 c)
  then show ?case by simp
next
  case (2 c t b rest)
  show ?case
  proof (cases i)
    case 0
    with "2.prems" obtain t' b' rest' where "rest = (t', b') # rest'"
      by (cases rest) auto
    with "2.prems" 0 show ?thesis by simp
  next
    case (Suc j)
    with "2.prems" "2.IH"[of j] show ?thesis by simp
  qed
qed

lemma audio_step_chained:
  assumes "inlineData m \<noteq> AccessThrows" and "inlineData m \<noteq> Base64 None"
  shows "\<exists>new. start_calls (step s (OnMessage p m)) = start_calls s @ new
            \<and> chained (nextStartTime s) new
            \<and> nextStartTime (step s (OnMessage p m)) = cursor_after (nextStartTime s) new"
  using assms
  by (auto simp add: onmessage_audio message_fails_def split: inline_audio.splits option.splits)

lemma audio_run_chained:
  assumes "\<forall>(p, m) \<in> set arrivals. inlineData m \<noteq> AccessThrows \<and> inlineData m \<noteq> Base64 None"
  shows "\<exists>new. start_calls (run s (map (\<lambda>(p, m). OnMessage p m) arrivals)) = start_calls s @ new
            \<and> chained (nextStartTime s) new
            \<and> nextStartTime (run s (map (\<lambda>(p, m). OnMessage p m) arrivals))
                = cursor_after (nextStartTime s) new"
  using assms
proof (induction arrivals arbitrary: s)
  case Nil
  show ?case by (simp add: run_def)
next
  case (Cons a arrivals)
  obtain p m where a: "a = (p, m)" by (cases a)
  from Cons.prems a have ok: "inlineData m \<noteq> AccessThrows" "inlineData m \<noteq> Base64 None"
    and rest: "\<forall>(p, m) \<in> set arrivals. inlineData m \<noteq> AccessThrows \<and> inlineData m \<noteq> Base64 None"
    by auto
  let ?s1 = "step s (OnMessage p m)"
  obtain new1 where n1: "start_calls ?s1 = start_calls s @ new1"
      "chained (nextStartTime s) new1" "nextStartTime ?s1 = cursor_after (nextStartTime s) new1"
    using audio_step_chained[OF ok, of s p] by blast
  obtain new2 where n2:
      "start_calls (run ?s1 (map (\<lambda>(p, m). OnMessage p m) arrivals)) = start_calls ?s1 @ new2"
      "chained (nextStartTime ?s1) new2"
      "nextStartTime (run ?s1 (map (\<lambda>(p, m). OnMessage p m) arrivals))
         = cursor_after (nextStartTime ?s1) new2"
    using Cons.IH[OF rest, of ?s1] by blast
  have r: "run s (map (\<lambda>(p, m). OnMessage p m) (a # arrivals))
             = run ?s1 (map (\<lambda>(p, m). OnMessage p m) arrivals)"
    by (simp add: run_def a)
  show ?case
    unfolding r using n1 n2
    by (intro exI[of _ "new1 @ new2"]) (simp add: chained_append)
qed

lemma chained_lower_bound:
  "chained c xs \<Longrightarrow> i < length xs \<Longrightarrow> c \<le> fst (xs ! i)"
proof (induction c xs arbitrary: i rule: chained.induct)
  case (1 c)
  then show ?case by simp
next
  case (2 c t b rest)
  show ?case
  proof (cases i)
    case 0
    with "2.prems" show ?thesis by simp
  next
    case (Suc j)
    have "c \<le> t + duration b" using "2.prems"(1) duration_nonneg[of b] by simp
    with Suc "2.prems" "2.IH"[of j] show ?thesis by simp
  qed
qed

text \<open>
  Claim C3. While a playback context is open, an inbound audio buffer is started at
  \<open>max(currentTime, nextStartTime)\<close> and the cursor becomes that start time plus the
  buffer's duration. Hence, over any sequence of inbound messages none of which fails to
  process (a failure tears the session down), the \<open>source.start\<close> calls made are
  chained: each start time is greater than or equal to the start time of the call before
  it plus that buffer's duration, none is before the cursor the sequence began with, and
  the cursor ends where the last scheduled buffer ends.
\<close>

theorem playback_never_overlaps:
  assumes "\<forall>(p, m) \<in> set arrivals. inlineData m \<noteq> AccessThrows \<and> inlineData m \<noteq> Base64 None"
  shows "(outputAudioContext s \<noteq> None \<and> inlineData message = Base64 (Some frames) \<longrightarrow>
            start_calls (step s (OnMessage p message)) =
              start_calls s @ [(max (currentTime p) (nextStartTime s),
                                \<lparr>buf_length = frames, buf_sampleRate = 24000\<rparr>)]
          \<and> nextStartTime (step s (OnMessage p message)) =
              max (currentTime p) (nextStartTime s)
              + duration \<lparr>buf_length = frames, buf_sampleRate = 24000\<rparr>)
       \<and> (\<exists>new. start_calls (run s (map (\<lambda>(p, m). OnMessage p m) arrivals)) = start_calls s @ new
            \<and> (\<forall>i. Suc i < length new \<longrightarrow>
                  fst (new ! i) + duration (snd (new ! i)) \<le> fst (new ! Suc i))
            \<and> (\<forall>i. i < length new \<longrightarrow> nextStartTime s \<le> fst (new ! i))
            \<and> chained (nextStartTime s) new
            \<and> nextStartTime (run s (map (\<lambda>(p, m). OnMessage p m) arrivals))
                = cursor_after (nextStartTime s) new)"
proof -
  have one: "outputAudioContext s \<noteq> None \<and> inlineData message = Base64 (Some frames) \<longrightarrow>
            start_calls (step s (OnMessage p message)) =
              start_calls s @ [(max (currentTime p) (nextStartTime s),
                                \<lparr>buf_length = frames, buf_sampleRate = 24000\<rparr>)]
          \<and> nextStartTime (step s (OnMessage p message)) =
              max (currentTime p) (nextStartTime s)
              + duration \<lparr>buf_length = frames, buf_sampleRate = 24000\<rparr>"
    by (auto simp add: onmessage_audio message_fails_def)
  obtain new where n:
      "start_calls (run s (map (\<lambda>(p, m). OnMessage p m) arrivals)) = start_calls s @ new"
      "chained (nextStartTime s) new"
      "nextStartTime (run s (map (\<lambda>(p, m). OnMessage p m) arrivals))
         = cursor_after (nextStartTime s) new"
    using audio_run_chained[OF assms, of s] by blast
  have "\<exists>new. start_calls (run s (map (\<lambda>(p, m). OnMessage p m) arrivals)) = start_calls s @ new
            \<and> (\<forall>i. Suc i < length new \<longrightarrow>
                  fst (new ! i) + duration (snd (new ! i)) \<le> fst (new ! Suc i))
            \<and> (\<forall>i. i < length new \<longrightarrow> nextStartTime s \<le> fst (new ! i))
            \<and> chained (nextStartTime s) new
            \<and> nextStartTime (run s (map (\<lambda>(p, m). OnMessage p m) arrivals))
                = cursor_after (nextStartTime s) new"
    using n chained_adjacent[OF n(2)] chained_lower_bound[OF n(2)]
    by (intro exI[of _ new]) simp
  with one show ?thesis by blast
qed

theorem playback_never_overlaps_witness:
  "\<exists>new. start_calls (run (step initial GetUserMediaResolved)
        (map (\<lambda>(p, m). OnMessage p m)
          [(\<lparr>dateNow_user = 0, dateNow_gemini = 0, currentTime = 0.5\<rparr>,
            \<lparr>inputTranscription = None, outputTranscription = None, turnComplete = False,
              inlineData = Base64 (Some 24000)\<rparr>),
           (\<lparr>dateNow_user = 0, dateNow_gemini = 0, currentTime = 0.75\<rparr>,
            \<lparr>inputTranscription = None, outputTranscription = None, turnComplete = False,
              inlineData = Base64 (Some 12000)\<rparr>)]))
      = start_calls (step initial GetUserMediaResolved) @ new
    \<and> chained (nextStartTime (step initial GetUserMediaResolved)) new
    \<and> new = [(0.5, \<lparr>buf_length = 24000, buf_sampleRate = 24000\<rparr>),
              (1.5, \<lparr>buf_length = 12000, buf_sampleRate = 24000\<rparr>)]"
proof -
  let ?arrivals =
    "[(\<lparr>dateNow_user = 0, dateNow_gemini = 0, currentTime = 0.5\<rparr>,
       \<lparr>inputTranscription = None, outputTranscription = None, turnComplete = False,
         inlineData = Base64 (Some 24000)\<rparr>),
      (\<lparr>dateNow_user = 0, dateNow_gemini = 0, currentTime = 0.75\<rparr>,
       \<lparr>inputTranscription = None, outputTranscription = None, turnComplete = False,
         inlineData = Base64 (Some (12000::nat))\<rparr>)]"
  let ?s = "step initial GetUserMediaResolved"
  have h: "\<forall>(p, m) \<in> set ?arrivals. inlineData m \<noteq> AccessThrows \<and> inlineData m \<noteq> Base64 None"
    by simp
  obtain new where n:
      "start_calls (run ?s (map (\<lambda>(p, m). OnMessage p m) ?arrivals)) = start_calls ?s @ new"
      "chained (nextStartTime ?s) new"
    using playback_never_overlaps[OF h, of ?s] by blast
  have "start_calls (run ?s (map (\<lambda>(p, m). OnMessage p m) ?arrivals))
          = start_calls ?s @ [(0.5, \<lparr>buf_length = 24000, buf_sampleRate = 24000\<rparr>),
              (1.5, \<lparr>buf_length = 12000, buf_sampleRate = 24000\<rparr>)]"
    by (simp add: run_def onmessage_audio onmessage_outputAudioContext step_simps initial_fields
        message_fails_def duration_def)
  with n(1) have "new = [(0.5, \<lparr>buf_length = 24000, buf_sampleRate = 24000\<rparr>),
              (1.5, \<lparr>buf_length = 12000, buf_sampleRate = 24000\<rparr>)]"
    by simp
  with n show ?thesis by blast
qed

section \<open>The end of the lesson\<close>

lemma has_parting_word_iff:
  "has_parting_word t =
     (\<exists>word \<in> set PARTING_WORDS. \<exists>before after. toLowerCase t = before @ word @ after)"
  by (simp add: has_parting_word_def includes_str_def list_ex_iff sublist_def)

lemma onmessage_timers:
  "timers (step s (OnMessage p m)) =
     timers s
     @ (if turnComplete m
           \<and> has_parting_word (overwritten (currentGeminiTranscriptRef s) [outputTranscription m])
        then [EndLessonTimer 2000 (transcriptionHistory (step s (OnMessage p m)))] else [])
     @ (if message_fails m s \<and> reconnectAttempts s < 3
        then [StartConversationTimer (2 ^ reconnectAttempts s * 1000)] else [])"
  by (auto simp add: step_OnMessage message_fails_def play_audio_def throw_def
      handleFailure_result torn_down_fields schedule_audio_def apply_turnComplete_def
      apply_outputTranscription_def apply_inputTranscription_def commit_turn_def overwritten_def
      Let_def split: inline_audio.splits option.splits)

lemma step_onEndLesson_calls:
  "onEndLesson_calls (step s ev) =
     onEndLesson_calls s
     @ (case ev of
          EndLessonClicked \<Rightarrow>
            [transcriptionHistory s
             @ (if currentUserTranscriptRef s \<noteq> [] then
                  [\<lparr>ident = CurrentUser, speaker = user, entry_text = currentUserTranscriptRef s\<rparr>]
                else [])]
        | TimerFired i \<Rightarrow>
            (if i < length (timers s) then
               (case timers s ! i of
                  EndLessonTimer d h \<Rightarrow> [h]
                | StartConversationTimer d \<Rightarrow> [])
             else [])
        | _ \<Rightarrow> [])"
proof (cases ev)
  case (OnMessage p m)
  then show ?thesis
    by (auto simp add: step_OnMessage play_audio_def throw_def
      handleFailure_result torn_down_fields schedule_audio_def transcripts_frame Let_def
      split: inline_audio.splits option.splits)
next
  case (TimerFired i)
  then show ?thesis
    by (simp add: step_TimerFired torn_down_fields Let_def split: timer.splits)
qed (simp_all add: step_simps step_OnOpen handleFailure_result torn_down_fields
    split: option.splits)


lemma parting_examples:
  "has_parting_word ''Great job today, goodbye!''"
  "\<not> has_parting_word ''Let's continue''"
  "has_parting_word ''GoodBye, See You next time''"
  by (simp_all add: has_parting_word_def PARTING_WORDS_def includes_str_def toLowerCase_def
      toLowerCase_char_def sublist_code prefix_code)

text \<open>
  Claim C5. When a turn-complete message is handled, the tutor text of the turn is
  searched, lower-cased, for the parting words. An end-of-lesson timer of 2000 ms,
  carrying the log as just committed, is appended to the pending timers if and only if
  the lower-cased text contains one of the parting words as a substring (the only other
  timer the handler can add is the backoff timer of a failure); \<open>onEndLesson\<close> itself is
  not called by the handler. Texts that agree after lower-casing are treated alike.
  "Great job today, goodbye!" is detected, "Let's continue" is not, and upper-case letters
  in the text do not prevent detection.
\<close>

theorem end_phrase_detection:
  assumes "turnComplete message"
  shows "let fullOutput = overwritten (currentGeminiTranscriptRef s) [outputTranscription message];
             s' = step s (OnMessage p message)
         in onEndLesson_calls s' = onEndLesson_calls s
          \<and> has_parting_word fullOutput =
              (\<exists>word \<in> set PARTING_WORDS. \<exists>before after.
                  toLowerCase fullOutput = before @ word @ after)
          \<and> timers s' =
              timers s
              @ (if has_parting_word fullOutput
                 then [EndLessonTimer 2000 (transcriptionHistory s')] else [])
              @ (if message_fails message s \<and> reconnectAttempts s < MAX_RECONNECT_ATTEMPTS
                 then [StartConversationTimer (2 ^ reconnectAttempts s * 1000)] else [])
          \<and> (toLowerCase t = toLowerCase u \<longrightarrow> has_parting_word t = has_parting_word u)
          \<and> has_parting_word ''Great job today, goodbye!''
          \<and> \<not> has_parting_word ''Let's continue''
          \<and> has_parting_word ''GoodBye, See You next time''"
proof -
  have a: "onEndLesson_calls (step s (OnMessage p message)) = onEndLesson_calls s"
    by (simp add: step_onEndLesson_calls)
  have b: "toLowerCase t = toLowerCase u \<longrightarrow> has_parting_word t = has_parting_word u"
    by (simp add: has_parting_word_def)
  show ?thesis
    unfolding Let_def
    using assms a b parting_examples has_parting_word_iff[of "overwritten (currentGeminiTranscriptRef s) [outputTranscription message]"]
    by (simp add: onmessage_timers MAX_RECONNECT_ATTEMPTS_def)
qed

theorem end_phrase_detection_witness:
  "timers (step initial
      (OnMessage \<lparr>dateNow_user = 5, dateNow_gemini = 7, currentTime = 0\<rparr>
         \<lparr>inputTranscription = None, outputTranscription = Some ''Great job today, goodbye!'',
           turnComplete = True, inlineData = Absent\<rparr>))
   = [EndLessonTimer 2000
        (transcriptionHistory (step initial
           (OnMessage \<lparr>dateNow_user = 5, dateNow_gemini = 7, currentTime = 0\<rparr>
              \<lparr>inputTranscription = None, outputTranscription = Some ''Great job today, goodbye!'',
                turnComplete = True, inlineData = Absent\<rparr>)))]
   \<and> onEndLesson_calls (step initial
      (OnMessage \<lparr>dateNow_user = 5, dateNow_gemini = 7, currentTime = 0\<rparr>
         \<lparr>inputTranscription = None, outputTranscription = Some ''Great job today, goodbye!'',
           turnComplete = True, inlineData = Absent\<rparr>)) = []"
proof -
  let ?m = "\<lparr>inputTranscription = None, outputTranscription = Some ''Great job today, goodbye!'',
              turnComplete = True, inlineData = Absent\<rparr>"
  let ?p = "\<lparr>dateNow_user = 5, dateNow_gemini = 7, currentTime = 0\<rparr>"
  have tc: "turnComplete ?m" by simp
  note th = end_phrase_detection[OF tc, where s = initial and p = ?p and t = "[]" and u = "[]",
      unfolded Let_def]
  from th have calls: "onEndLesson_calls (step initial (OnMessage ?p ?m)) = onEndLesson_calls initial"
    by (rule conjunct1)
  from th have found: "has_parting_word ''Great job today, goodbye!''"
    by blast
  from th have "timers (step initial (OnMessage ?p ?m)) =
      timers initial
      @ (if has_parting_word (overwritten (currentGeminiTranscriptRef initial) [outputTranscription ?m])
         then [EndLessonTimer 2000 (transcriptionHistory (step initial (OnMessage ?p ?m)))] else [])
      @ (if message_fails ?m initial \<and> reconnectAttempts initial < MAX_RECONNECT_ATTEMPTS
         then [StartConversationTimer (2 ^ reconnectAttempts initial * 1000)] else [])"
    by blast
  with calls found show ?thesis
    by (simp add: overwritten_def initial_fields message_fails_def)
qed

lemma ends_lesson_length:
  "length (onEndLesson_calls (step s ev)) =
     length (onEndLesson_calls s) + (if ends_lesson s ev then 1 else 0)"
  by (simp add: step_onEndLesson_calls ends_lesson_def is_StartConversationTimer_def
      split: event.splits timer.splits)

text \<open>
  Claim C8, as the code has it. \<open>onEndLesson\<close> is called once for every trigger: once
  for each press of End Lesson and once for each end-of-lesson timer that fires, and by
  nothing else. Nothing cancels a pending end-of-lesson timer or suppresses a second call,
  so over any run the number of calls is the number of triggers in it; a run with exactly
  one trigger gives exactly one call.
\<close>

theorem onEndLesson_once_per_trigger:
  "length (onEndLesson_calls (run s evs)) = length (onEndLesson_calls s) + lesson_end_triggers s evs"
proof (induction evs arbitrary: s)
  case Nil
  show ?case by (simp add: run_def)
next
  case (Cons ev evs)
  have "run s (ev # evs) = run (step s ev) evs" by (simp add: run_def)
  then show ?case
    using Cons.IH[of "step s ev"] ends_lesson_length[of s ev] by simp
qed


text \<open>
  The tutor says goodbye (a timer is scheduled), the student presses End Lesson before
  the two seconds are over, the component is unmounted, and the timer fires:
  \<open>onEndLesson\<close> has been called twice.
\<close>

theorem onEndLesson_twice_counterexample:
  "onEndLesson_calls (run initial [Mount, GetUserMediaResolved, OnOpen,
      OnMessage \<lparr>dateNow_user = 5, dateNow_gemini = 7, currentTime = 0\<rparr>
         \<lparr>inputTranscription = None, outputTranscription = Some ''Great job today, goodbye!'',
           turnComplete = True, inlineData = Absent\<rparr>,
      EndLessonClicked, Unmount, TimerFired 0])
   = [[\<lparr>ident = GeminiId 7, speaker = gemini, entry_text = ''Great job today, goodbye!''\<rparr>],
      [\<lparr>ident = GeminiId 7, speaker = gemini, entry_text = ''Great job today, goodbye!''\<rparr>]]"
proof -
  let ?m = "\<lparr>inputTranscription = None, outputTranscription = Some ''Great job today, goodbye!'',
              turnComplete = True, inlineData = Absent\<rparr>"
  let ?p = "\<lparr>dateNow_user = 5, dateNow_gemini = 7, currentTime = 0\<rparr>"
  let ?e = "\<lparr>ident = GeminiId 7, speaker = gemini, entry_text = ''Great job today, goodbye!''\<rparr>"
  let ?s3 = "run initial [Mount, GetUserMediaResolved, OnOpen]"
  let ?s4 = "step ?s3 (OnMessage ?p ?m)"
  have s3: "transcriptionHistory ?s3 = []" "currentUserTranscriptRef ?s3 = []"
      "currentGeminiTranscriptRef ?s3 = []" "timers ?s3 = []" "onEndLesson_calls ?s3 = []"
      "reconnectAttempts ?s3 = 0"
    by (simp_all add: run_def step_simps step_OnOpen torn_down_fields initial_fields)
  have tc: "turnComplete ?m" by simp
  have h4: "transcriptionHistory ?s4 = [?e]" "currentUserTranscriptRef ?s4 = []"
    using turn_complete_transcript[OF tc, of ?s3 ?p] by (simp_all add: s3 overwritten_def)
  have t4: "timers ?s4 = [EndLessonTimer 2000 [?e]]"
    using parting_examples(1)
    by (simp add: onmessage_timers s3 h4 overwritten_def message_fails_def)
  have c4: "onEndLesson_calls ?s4 = []"
    by (simp add: step_onEndLesson_calls s3)
  let ?s5 = "step ?s4 EndLessonClicked"
  have s5: "onEndLesson_calls ?s5 = [[?e]]" "timers ?s5 = [EndLessonTimer 2000 [?e]]"
    by (simp_all add: step_simps h4 t4 c4)
  let ?s6 = "step ?s5 Unmount"
  have s6: "onEndLesson_calls ?s6 = [[?e]]" "timers ?s6 = [EndLessonTimer 2000 [?e]]"
    by (simp_all add: step_simps(2) torn_down_fields s5)
  have "onEndLesson_calls (step ?s6 (TimerFired 0)) = [[?e], [?e]]"
    using step_onEndLesson_calls[of ?s6 "TimerFired 0"] by (simp add: s6)
  then show ?thesis by (simp add: run_def)
qed

section \<open>Timers and teardown\<close>

lemma step_startConversationRef:
  "startConversationRef (step s ev) = (startConversationRef s \<or> ev = Mount)"
proof (cases ev)
  case (OnMessage p m)
  then show ?thesis
    by (auto simp add: step_OnMessage play_audio_def throw_def
      handleFailure_result torn_down_fields schedule_audio_def transcripts_frame Let_def
      split: inline_audio.splits option.splits)
next
  case (TimerFired i)
  then show ?thesis
    by (simp add: step_TimerFired torn_down_fields Let_def split: timer.splits)
qed (simp_all add: step_simps step_OnOpen handleFailure_result torn_down_fields
    split: option.splits)

text \<open>
  Claim C9, as the code has it. The unmount cleanup cancels no timer, and the reference
  that the backoff callback tests, \<open>startConversationRef\<close>, is set at the mount and
  cleared by no handler. So a timer that is pending when the final teardown completes
  still acts when it fires afterwards: a backoff timer runs \<open>startConversation\<close> (one
  more microphone request), and an end-of-lesson timer calls \<open>onEndLesson\<close> with the
  log it captured. The backoff callback is a no-op only if the reference was never set.
\<close>

theorem timers_fire_after_teardown:
  "timers (step s Unmount) = timers s
   \<and> startConversationRef (step s Mount)
   \<and> (startConversationRef s \<longrightarrow> startConversationRef (step s ev))
   \<and> (i < length (timers s) \<longrightarrow>
        (case timers s ! i of
           StartConversationTimer delay \<Rightarrow>
             (if startConversationRef s then
                getUserMedia_calls (step (step s Unmount) (TimerFired i)) = getUserMedia_calls s + 1
              else
                step (step s Unmount) (TimerFired i) =
                  (step s Unmount)\<lparr>timers := take i (timers s) @ drop (Suc i) (timers s)\<rparr>)
         | EndLessonTimer delay newHistory \<Rightarrow>
             onEndLesson_calls (step (step s Unmount) (TimerFired i)) =
               onEndLesson_calls s @ [newHistory]))"
proof -
  have u: "timers (step s Unmount) = timers s"
      "startConversationRef (step s Unmount) = startConversationRef s"
      "getUserMedia_calls (step s Unmount) = getUserMedia_calls s"
      "reconnectAttempts (step s Unmount) = reconnectAttempts s"
      "onEndLesson_calls (step s Unmount) = onEndLesson_calls s"
    by (simp_all add: step_simps(2) torn_down_fields)
  have t: "i < length (timers s) \<longrightarrow>
        (case timers s ! i of
           StartConversationTimer delay \<Rightarrow>
             (if startConversationRef s then
                getUserMedia_calls (step (step s Unmount) (TimerFired i)) = getUserMedia_calls s + 1
              else
                step (step s Unmount) (TimerFired i) =
                  (step s Unmount)\<lparr>timers := take i (timers s) @ drop (Suc i) (timers s)\<rparr>)
         | EndLessonTimer delay newHistory \<Rightarrow>
             onEndLesson_calls (step (step s Unmount) (TimerFired i)) =
               onEndLesson_calls s @ [newHistory])"
    using step_TimerFired[of "step s Unmount" i]
    by (simp add: u Let_def torn_down_fields split: timer.splits)
  show ?thesis
    using u(1) t by (simp add: step_startConversationRef)
qed

theorem timers_fire_after_teardown_witness:
  "getUserMedia_calls
     (step (step (run initial [Mount, StartConversationThrew NotAnError]) Unmount) (TimerFired 0))
   = getUserMedia_calls (run initial [Mount, StartConversationThrew NotAnError]) + 1"
proof -
  let ?s = "run initial [Mount, StartConversationThrew NotAnError]"
  have s: "timers ?s = [StartConversationTimer 1000]" "startConversationRef ?s"
      "reconnectAttempts ?s = 1"
    by (simp_all add: run_def step_simps handleFailure_result torn_down_fields initial_fields)
  show ?thesis
    using timers_fire_after_teardown[of ?s Unmount 0] by (simp add: s)
qed

text \<open>
  The microphone request of the mount is refused (a backoff timer is scheduled), the
  component is unmounted with that timer pending, and the timer fires: a second
  microphone request is made.
\<close>

theorem timer_after_unmount_counterexample:
  "getUserMedia_calls (run initial [Mount, StartConversationThrew NotAnError, Unmount]) = 1
   \<and> timers (run initial [Mount, StartConversationThrew NotAnError, Unmount])
       = [StartConversationTimer 1000]
   \<and> getUserMedia_calls
        (run initial [Mount, StartConversationThrew NotAnError, Unmount, TimerFired 0]) = 2"
  by (simp add: run_def step_simps step_TimerFired handleFailure_result torn_down_fields
      initial_fields Let_def)


section \<open>Feedback\<close>

text \<open>
  Claim C10. For the empty transcript log \<open>generateFeedback\<close> returns the fixed
  message "There was no conversation to analyze. Let's try another lesson!" and sends
  nothing over the network. For a non-empty log on which the generation fails (the client
  cannot be constructed, or \<open>generateContent\<close> throws or rejects) it returns the fixed
  fallback text. Its promise never rejects, and it sends at most one request.
\<close>

theorem generateFeedback_graceful:
  "generateFeedback ai [] =
     (Inr ''There was no conversation to analyze. Let's try another lesson!'', [])
   \<and> (history \<noteq> [] \<and> (\<exists>e. fst (generateFeedback_try ai history) = Inl e) \<longrightarrow>
        fst (generateFeedback ai history) =
          Inr ''Sorry, I was unable to generate feedback for this session. Please try again next time.'')
   \<and> (\<exists>feedback. fst (generateFeedback ai history) = Inr feedback)
   \<and> length (snd (generateFeedback ai history)) \<le> 1"
  by (auto simp add: generateFeedback_def generateFeedback_try_def no_conversation_message_def
      feedback_fallback_def Let_def split: option.splits sum.splits prod.splits)

theorem generateFeedback_graceful_witness:
  "fst (generateFeedback \<lparr>newGoogleGenAI = None, generateContent = (\<lambda>prompt. Inl (Error ''503''))\<rparr>
         [\<lparr>ident = UserId 5, speaker = user, entry_text = ''Hello''\<rparr>])
   = Inr ''Sorry, I was unable to generate feedback for this session. Please try again next time.''"
  using generateFeedback_graceful[of
      "\<lparr>newGoogleGenAI = None, generateContent = (\<lambda>prompt. Inl (Error ''503''))\<rparr>"
      "[\<lparr>ident = UserId 5, speaker = user, entry_text = ''Hello''\<rparr>]"]
  by (simp add: generateFeedback_try_def)

section \<open>The codec round trip\<close>

lemma index_of_nth:
  "distinct xs \<Longrightarrow> i < length xs \<Longrightarrow> index_of (xs ! i) xs = Some i"
proof (induction xs arbitrary: i)
  case Nil
  then show ?case by simp
next
  case (Cons x xs)
  show ?case
  proof (cases i)
    case 0
    then show ?thesis by simp
  next
    case (Suc j)
    with Cons.prems have "xs ! j \<noteq> x" by auto
    with Suc Cons show ?thesis by simp
  qed
qed

lemma b64_alphabet_facts:
  "distinct b64_alphabet" "length b64_alphabet = 64" "CHR ''='' \<notin> set b64_alphabet"
  by (simp_all add: b64_alphabet_def)

lemma b64_index_char: "i < 64 \<Longrightarrow> b64_index (b64_char i) = Some i"
  by (simp add: b64_index_def b64_char_def index_of_nth b64_alphabet_facts)

lemma b64_char_not_pad:
  assumes "i < 64"
  shows "b64_char i \<noteq> CHR ''=''"
proof -
  have "b64_alphabet ! i \<in> set b64_alphabet"
    using assms by (simp add: b64_alphabet_facts(2))
  with b64_alphabet_facts(3) show ?thesis
    by (auto simp add: b64_char_def)
qed

lemma byte_bound: "unat (a :: 8 word) < 256"
  using unsigned_less[of a, where 'a = nat] by simp

lemma sextets_join2: "(n::nat) div 64 * 64 + n mod 64 = n"
  by simp

lemma sextets_join3: "(n::nat) div 4096 * 4096 + n div 64 mod 64 * 64 + n mod 64 = n"
proof -
  define q1 where "q1 = n div 64"
  define r0 where "r0 = n mod 64"
  define q2 where "q2 = q1 div 64"
  define r1 where "r1 = q1 mod 64"
  have a: "n = q1 * 64 + r0" by (simp add: q1_def r0_def)
  have b: "q1 = q2 * 64 + r1" by (simp add: q2_def r1_def)
  have c: "n div 4096 = q2" by (simp add: q2_def q1_def div_mult2_eq)
  have "q2 * 4096 + r1 * 64 + r0 = n" using a b by simp
  then show ?thesis by (simp add: c q1_def[symmetric] r1_def[symmetric] r0_def[symmetric])
qed

lemma sextets_join4:
  "(n::nat) div 262144 * 262144 + n div 4096 mod 64 * 4096 + n div 64 mod 64 * 64 + n mod 64 = n"
proof -
  define q where "q = n div 64"
  have a: "n div 4096 = q div 64" "n div 262144 = q div 4096"
    by (simp_all add: q_def div_mult2_eq)
  have "q div 4096 * 4096 + q div 64 mod 64 * 64 + q mod 64 = q"
    by (rule sextets_join3)
  then have "(q div 4096 * 4096 + q div 64 mod 64 * 64 + q mod 64) * 64 + n mod 64 = n"
    by (simp add: q_def)
  then show ?thesis
    by (simp add: a q_def[symmetric] algebra_simps)
qed

lemma one_byte:
  fixes A :: nat
  assumes "A < 256"
  shows "A * 16 div 64 < 64" "A * 16 mod 64 < 64"
    "((A * 16 div 64) * 64 + A * 16 mod 64) div 16 = A"
proof -
  show "A * 16 div 64 < 64" using assms by (simp add: div_less_iff_less_mult)
  show "A * 16 mod 64 < 64" by simp
  show "((A * 16 div 64) * 64 + A * 16 mod 64) div 16 = A"
    unfolding sextets_join2 by simp
qed

lemma two_bytes:
  fixes A B :: nat
  assumes "A < 256" "B < 256"
  defines "n \<equiv> (A * 256 + B) * 4"
  shows "n div 4096 < 64" "n div 64 mod 64 < 64" "n mod 64 < 64"
    "(n div 4096 * 4096 + n div 64 mod 64 * 64 + n mod 64) div 1024 = A"
    "(n div 4096 * 4096 + n div 64 mod 64 * 64 + n mod 64) div 4 mod 256 = B"
proof -
  have n: "n < 262144" using assms(1,2) by (simp add: n_def)
  show "n div 4096 < 64" using n by (simp add: div_less_iff_less_mult)
  show "n div 64 mod 64 < 64" "n mod 64 < 64" by simp_all
  have "n div 4 = A * 256 + B" by (simp add: n_def)
  moreover have "n div 1024 = n div 4 div 256" by (simp add: div_mult2_eq)
  ultimately show "(n div 4096 * 4096 + n div 64 mod 64 * 64 + n mod 64) div 1024 = A"
    "(n div 4096 * 4096 + n div 64 mod 64 * 64 + n mod 64) div 4 mod 256 = B"
    unfolding sextets_join3 using assms(2) by simp_all
qed

lemma three_bytes:
  fixes A B C :: nat
  assumes "A < 256" "B < 256" "C < 256"
  defines "n \<equiv> A * 65536 + B * 256 + C"
  shows "n div 262144 < 64" "n div 4096 mod 64 < 64" "n div 64 mod 64 < 64" "n mod 64 < 64"
    "(n div 262144 * 262144 + n div 4096 mod 64 * 4096 + n div 64 mod 64 * 64 + n mod 64) div 65536 = A"
    "(n div 262144 * 262144 + n div 4096 mod 64 * 4096 + n div 64 mod 64 * 64 + n mod 64) div 256 mod 256 = B"
    "(n div 262144 * 262144 + n div 4096 mod 64 * 4096 + n div 64 mod 64 * 64 + n mod 64) mod 256 = C"
proof -
  have n: "n < 16777216" using assms(1,2,3) by (simp add: n_def)
  show "n div 262144 < 64" using n by (simp add: div_less_iff_less_mult)
  show "n div 4096 mod 64 < 64" "n div 64 mod 64 < 64" "n mod 64 < 64" by simp_all
  have n256: "n = (A * 256 + B) * 256 + C" by (simp add: n_def)
  have d: "n div 256 = A * 256 + B" unfolding n256 using assms(3) by simp
  have "n div 65536 = n div 256 div 256" by (simp add: div_mult2_eq)
  then show "(n div 262144 * 262144 + n div 4096 mod 64 * 4096 + n div 64 mod 64 * 64 + n mod 64) div 65536 = A"
    unfolding sextets_join4 using d assms(2) by simp
  show "(n div 262144 * 262144 + n div 4096 mod 64 * 4096 + n div 64 mod 64 * 64 + n mod 64) div 256 mod 256 = B"
    unfolding sextets_join4 using d assms(2) by simp
  have "n mod 256 = C mod 256" unfolding n256 by (rule mod_mult_self3)
  then show "(n div 262144 * 262144 + n div 4096 mod 64 * 4096 + n div 64 mod 64 * 64 + n mod 64) mod 256 = C"
    unfolding sextets_join4 using assms(3) by simp
qed

lemma decode_quad:
  assumes "w < 64" "x < 64" "y < 64" "z < 64"
  shows "decode (b64_char w # b64_char x # b64_char y # b64_char z # rest) =
           map_option (\<lambda>bytes. of_nat ((w * 262144 + x * 4096 + y * 64 + z) div 65536)
                                # of_nat ((w * 262144 + x * 4096 + y * 64 + z) div 256 mod 256)
                                # of_nat ((w * 262144 + x * 4096 + y * 64 + z) mod 256) # bytes)
             (decode rest)"
  using assms by (simp add: b64_index_char b64_char_not_pad Let_def del: of_nat_add of_nat_mult)

lemma decode_triple:
  assumes "w < 64" "x < 64" "y < 64"
  shows "decode [b64_char w, b64_char x, b64_char y, CHR ''=''] =
           Some [of_nat ((w * 4096 + x * 64 + y) div 1024),
                 of_nat ((w * 4096 + x * 64 + y) div 4 mod 256)]"
  using assms by (simp add: b64_index_char b64_char_not_pad Let_def del: of_nat_add of_nat_mult)

lemma decode_pair:
  assumes "w < 64" "x < 64"
  shows "decode [b64_char w, b64_char x, CHR ''='', CHR ''=''] = Some [of_nat ((w * 64 + x) div 16)]"
  using assms by (simp add: b64_index_char del: of_nat_add of_nat_mult)

text \<open>
  Claim C6. For every list of bytes, the empty list included, decoding the text that
  \<open>encode\<close> produces gives back exactly that list: \<open>decode (encode b) = b\<close>.
\<close>

theorem decode_encode_roundtrip:
  "decode (encode bytes) = Some bytes \<and> decode (encode []) = Some []"
proof -
  have roundtrip: "decode (encode bs) = Some bs" for bs
  proof (induction bs rule: encode.induct)
    case 1
    show ?case by simp
  next
    case (2 a)
    note t = one_byte[OF byte_bound[of a]]
    have "decode (encode [a]) = Some [of_nat ((unat a * 16 div 64 * 64 + unat a * 16 mod 64) div 16)]"
      unfolding encode.simps Let_def by (rule decode_pair[OF t(1) t(2)])
    then show ?case unfolding t(3) by simp
  next
    case (3 a b)
    note t = two_bytes[OF byte_bound[of a] byte_bound[of b]]
    show ?case
      unfolding encode.simps Let_def decode_triple[OF t(1) t(2) t(3)] t(4) t(5) by simp
  next
    case (4 a b c rest)
    note t = three_bytes[OF byte_bound[of a] byte_bound[of b] byte_bound[of c]]
    have "decode (encode (a # b # c # rest)) =
            map_option (\<lambda>bytes. of_nat (unat a) # of_nat (unat b) # of_nat (unat c) # bytes)
              (decode (encode rest))"
      unfolding encode.simps Let_def append_Cons append_Nil
        decode_quad[OF t(1) t(2) t(3) t(4)] t(5) t(6) t(7) ..
    then show ?case by (simp add: "4.IH")
  qed
  show ?thesis by (simp add: roundtrip)
qed

end
